theory Spec2Isabelle
  imports Main "HOL-Library.Word" "HOL-Library.Sublist" "HOL-Library.AList"
begin

section \<open>JavaScript strings\<close>

text \<open>
  A JavaScript string is a sequence of UTF-16 code units; \<open>length\<close>, \<open>substring\<close> and the
  regular expressions of the source (which carry no \<open>u\<close> flag) all work on code units.
  \<open>js\<close> embeds an ASCII literal.
\<close>

type_synonym jschar = "16 word"
type_synonym jsstring = "jschar list"

definition js :: "string \<Rightarrow> jsstring" where
  "js s = map of_char s"

definition HYPHEN :: jschar where
  "HYPHEN = 0x2D"

definition DOT :: jschar where
  "DOT = 0x2E"

text \<open>\<open>String.prototype.includes\<close>: the pattern occurs as a contiguous substring.\<close>

fun str_includes :: "jsstring \<Rightarrow> jsstring \<Rightarrow> bool" where
  "str_includes [] pat = (pat = [])"
| "str_includes (c # cs) pat = (prefix pat (c # cs) \<or> str_includes cs pat)"

text \<open>\<open>String.prototype.startsWith\<close>.\<close>

definition startsWith :: "jsstring \<Rightarrow> jsstring \<Rightarrow> bool" where
  "startsWith s pat = prefix pat s"

section \<open>sanitizeFilename\<close>

text \<open>The class \<open>[<>:"/\\|?*]\<close> of the first replacement.\<close>

definition invalid_chars :: "jschar list" where
  "invalid_chars = [0x3C, 0x3E, 0x3A, 0x22, 0x2F, 0x5C, 0x7C, 0x3F, 0x2A]"

text \<open>The class of the second replacement: apostrophe, double quote (each written twice
  in the source), backtick and the acute accent U+00B4.\<close>

definition quote_chars :: "jschar list" where
  "quote_chars = [0x27, 0x27, 0x22, 0x22, 0x60, 0xB4]"

text \<open>The class \<open>[.,;:!@#$%^&*()_+={}[\]|\\/]\<close> of the third replacement.\<close>

definition punctuation_chars :: "jschar list" where
  "punctuation_chars =
     [0x2E, 0x2C, 0x3B, 0x3A, 0x21, 0x40, 0x23, 0x24, 0x25, 0x5E, 0x26, 0x2A, 0x28, 0x29,
      0x5F, 0x2B, 0x3D, 0x7B, 0x7D, 0x5B, 0x5D, 0x7C, 0x5C, 0x2F]"

text \<open>The class \<open>\s\<close> of ECMAScript: white space and line terminators.\<close>

definition isWhiteSpace :: "jschar \<Rightarrow> bool" where
  "isWhiteSpace c \<longleftrightarrow>
     c \<in> set [0x09, 0x0A, 0x0B, 0x0C, 0x0D, 0x20, 0xA0, 0x1680, 0x2028, 0x2029, 0x202F,
               0x205F, 0x3000, 0xFEFF]
     \<or> (0x2000 \<le> c \<and> c \<le> 0x200A)"

definition isHyphen :: "jschar \<Rightarrow> bool" where
  "isHyphen c \<longleftrightarrow> c = HYPHEN"

text \<open>\<open>s.replace(/[cls]/g, r)\<close> for a one-character replacement \<open>r\<close>.\<close>

definition replace_class :: "jschar list \<Rightarrow> jschar \<Rightarrow> jsstring \<Rightarrow> jsstring" where
  "replace_class cls r s = map (\<lambda>c. if c \<in> set cls then r else c) s"

text \<open>\<open>s.replace(/[cls]/g, "")\<close>.\<close>

definition remove_class :: "jschar list \<Rightarrow> jsstring \<Rightarrow> jsstring" where
  "remove_class cls s = filter (\<lambda>c. c \<notin> set cls) s"

text \<open>\<open>s.replace(/P+/g, r)\<close>: every maximal run of characters satisfying \<open>P\<close> becomes \<open>r\<close>
  (the quantifier is greedy, and the search resumes after the run).\<close>

function replace_runs :: "(jschar \<Rightarrow> bool) \<Rightarrow> jsstring \<Rightarrow> jsstring \<Rightarrow> jsstring" where
  "replace_runs P r [] = []"
| "replace_runs P r (c # cs) =
     (if P c then r @ replace_runs P r (dropWhile P cs) else c # replace_runs P r cs)"
  by pat_completeness auto
termination
  by (relation "measure (\<lambda>(P, r, s). length s)")
     (auto simp: length_dropWhile_le less_Suc_eq_le)

text \<open>\<open>s.replace(/^-+|-+$/g, "")\<close>: the first alternative matches the run of hyphens at
  index 0, the second the run that reaches the end of the string.\<close>

definition trim_hyphens :: "jsstring \<Rightarrow> jsstring" where
  "trim_hyphens s = rev (dropWhile isHyphen (rev (dropWhile isHyphen s)))"

text \<open>\<open>s.substring(0, n)\<close>.\<close>

definition substring0 :: "nat \<Rightarrow> jsstring \<Rightarrow> jsstring" where
  "substring0 n s = take n s"

definition sanitizeFilename :: "jsstring \<Rightarrow> jsstring" where
  "sanitizeFilename filename =
     substring0 255
       (trim_hyphens
         (replace_runs isHyphen [HYPHEN]
           (replace_runs isWhiteSpace [HYPHEN]
             (remove_class punctuation_chars
               (remove_class quote_chars
                 (replace_class invalid_chars HYPHEN filename))))))"

section \<open>The Node.js modules the library calls\<close>

text \<open>
  The source imports \<open>node:fs\<close> and \<open>node:path\<close> and uses the global \<open>JSON\<close>; its own test
  suite replaces \<open>node:fs\<close> by mocks. The embedding does the same: the three modules are
  the fields of a record that every function of the library takes as its first argument.
  The state of the file system is a value \<open>w\<close> of an arbitrary type; calls that only read
  take it, calls that write return the new state beside their result.

  Whatever a call throws is a value of type \<open>thrown\<close>: an instance of \<open>Error\<close> with its
  message, or something that is no \<open>Error\<close> (which JavaScript allows).
\<close>

datatype thrown = Error (message: jsstring) | NonError

record stats =
  stats_isFile :: bool
  stats_isDirectory :: bool

record mkdir_options =
  recursive :: bool
  mode :: nat

datatype encoding = Utf8

record parsed_path =
  pp_root :: jsstring
  pp_dir :: jsstring
  pp_base :: jsstring
  pp_ext :: jsstring
  pp_name :: jsstring

record ('w, 'j) runtime =
  fs_existsSync :: "jsstring \<Rightarrow> 'w \<Rightarrow> bool"
  fs_statSync :: "jsstring \<Rightarrow> 'w \<Rightarrow> thrown + stats"
  fs_readdirSync :: "jsstring \<Rightarrow> 'w \<Rightarrow> thrown + jsstring list"
  fs_readFileSync :: "jsstring \<Rightarrow> encoding \<Rightarrow> 'w \<Rightarrow> thrown + jsstring"
  fs_mkdirSync :: "jsstring \<Rightarrow> mkdir_options \<Rightarrow> 'w \<Rightarrow> (thrown + unit) \<times> 'w"
  fs_writeFileSync :: "jsstring \<Rightarrow> jsstring \<Rightarrow> encoding \<Rightarrow> 'w \<Rightarrow> (thrown + unit) \<times> 'w"
  fs_renameSync :: "jsstring \<Rightarrow> jsstring \<Rightarrow> 'w \<Rightarrow> (thrown + unit) \<times> 'w"
  path_join :: "jsstring list \<Rightarrow> jsstring"
  path_dirname :: "jsstring \<Rightarrow> jsstring"
  path_parse :: "jsstring \<Rightarrow> parsed_path"
  JSON_stringify :: "'j \<Rightarrow> nat \<Rightarrow> thrown + jsstring"
  JSON_parse :: "jsstring \<Rightarrow> thrown + 'j"

text \<open>\<open>JSON_stringify h v n\<close> is \<open>JSON.stringify(v, null, n)\<close>.\<close>

section \<open>The library\<close>

text \<open>\<open>error instanceof Error ? error.message : "Unknown error"\<close>\<close>

definition error_message :: "thrown \<Rightarrow> jsstring" where
  "error_message e = (case e of Error m \<Rightarrow> m | NonError \<Rightarrow> js ''Unknown error'')"

text \<open>The \<open>catch\<close> block every method ends with: \<open>throw new Error(`label${...}`)\<close>.\<close>

definition rethrow :: "string \<Rightarrow> thrown \<Rightarrow> thrown" where
  "rethrow label e = Error (js label @ error_message e)"

definition joinPaths :: "('w, 'j) runtime \<Rightarrow> jsstring list \<Rightarrow> jsstring" where
  "joinPaths h paths = path_join h paths"

definition getDirectoryName :: "('w, 'j) runtime \<Rightarrow> jsstring \<Rightarrow> jsstring" where
  "getDirectoryName h filePath = path_dirname h filePath"

definition ensureDirectoryExists ::
  "('w, 'j) runtime \<Rightarrow> jsstring \<Rightarrow> 'w \<Rightarrow> (thrown + unit) \<times> 'w" where
  "ensureDirectoryExists h dirPath w =
     (if \<not> fs_existsSync h dirPath w then
        (case fs_mkdirSync h dirPath \<lparr>recursive = True, mode = 493\<rparr> w of
           (Inl e, w') \<Rightarrow> (Inl (rethrow ''Failed to create directory: '' e), w')
         | (Inr u, w') \<Rightarrow> (Inr (), w'))
      else (Inr (), w))"

definition readTextFile :: "('w, 'j) runtime \<Rightarrow> jsstring \<Rightarrow> 'w \<Rightarrow> thrown + jsstring" where
  "readTextFile h filePath w =
     (case fs_readFileSync h filePath Utf8 w of
        Inl e \<Rightarrow> Inl (rethrow ''Failed to read text file: '' e)
      | Inr text \<Rightarrow> Inr text)"

definition writeTextFile ::
  "('w, 'j) runtime \<Rightarrow> jsstring \<Rightarrow> jsstring \<Rightarrow> 'w \<Rightarrow> (thrown + unit) \<times> 'w" where
  "writeTextFile h filePath content w =
     (case (let dirPath = getDirectoryName h filePath in
            case ensureDirectoryExists h dirPath w of
              (Inl e, w1) \<Rightarrow> (Inl e, w1)
            | (Inr u, w1) \<Rightarrow> fs_writeFileSync h filePath content Utf8 w1) of
        (Inl e, w') \<Rightarrow> (Inl (rethrow ''Failed to write text file: '' e), w')
      | (Inr u, w') \<Rightarrow> (Inr (), w'))"

text \<open>The argument \<open>JSON.stringify(data, null, 2)\<close> is evaluated before \<open>writeTextFile\<close>
  is called, after the directory has been ensured.\<close>

definition writeJsonFile ::
  "('w, 'j) runtime \<Rightarrow> jsstring \<Rightarrow> 'j \<Rightarrow> 'w \<Rightarrow> (thrown + unit) \<times> 'w" where
  "writeJsonFile h filePath data w =
     (case (let dirPath = getDirectoryName h filePath in
            case ensureDirectoryExists h dirPath w of
              (Inl e, w1) \<Rightarrow> (Inl e, w1)
            | (Inr u, w1) \<Rightarrow>
                (case JSON_stringify h data 2 of
                   Inl e \<Rightarrow> (Inl e, w1)
                 | Inr text \<Rightarrow> writeTextFile h filePath text w1)) of
        (Inl e, w') \<Rightarrow> (Inl (rethrow ''Failed to write JSON file: '' e), w')
      | (Inr u, w') \<Rightarrow> (Inr (), w'))"

text \<open>No \<open>try\<close> block here: what \<open>readTextFile\<close> or \<open>JSON.parse\<close> throws leaves the
  method as it is.\<close>

definition readJsonFile :: "('w, 'j) runtime \<Rightarrow> jsstring \<Rightarrow> 'w \<Rightarrow> thrown + 'j" where
  "readJsonFile h filePath w =
     (case readTextFile h filePath w of
        Inl e \<Rightarrow> Inl e
      | Inr json \<Rightarrow> JSON_parse h json)"

text \<open>\<open>fs.existsSync(dirPath) && fs.statSync(dirPath).isDirectory()\<close>, with \<open>false\<close> for
  anything thrown.\<close>

definition directoryExists :: "('w, 'j) runtime \<Rightarrow> jsstring \<Rightarrow> 'w \<Rightarrow> bool" where
  "directoryExists h dirPath w =
     (fs_existsSync h dirPath w \<and>
      (case fs_statSync h dirPath w of Inl e \<Rightarrow> False | Inr st \<Rightarrow> stats_isDirectory st))"

definition getDirectoryContents ::
  "('w, 'j) runtime \<Rightarrow> jsstring \<Rightarrow> 'w \<Rightarrow> thrown + jsstring list" where
  "getDirectoryContents h dirPath w =
     (if \<not> directoryExists h dirPath w then Inr []
      else (case fs_readdirSync h dirPath w of
              Inl e \<Rightarrow> Inl (rethrow ''Failed to read directory: '' e)
            | Inr names \<Rightarrow> Inr names))"

definition renameFile ::
  "('w, 'j) runtime \<Rightarrow> jsstring \<Rightarrow> jsstring \<Rightarrow> 'w \<Rightarrow> (thrown + unit) \<times> 'w" where
  "renameFile h oldPath newPath w =
     (case fs_renameSync h oldPath newPath w of
        (Inl e, w') \<Rightarrow> (Inl (rethrow ''Failed to rename file: '' e), w')
      | (Inr u, w') \<Rightarrow> (Inr (), w'))"

definition moveFile ::
  "('w, 'j) runtime \<Rightarrow> jsstring \<Rightarrow> jsstring \<Rightarrow> 'w \<Rightarrow> (thrown + unit) \<times> 'w" where
  "moveFile h sourcePath destPath w =
     (case (let destDir = getDirectoryName h destPath in
            case ensureDirectoryExists h destDir w of
              (Inl e, w1) \<Rightarrow> (Inl e, w1)
            | (Inr u, w1) \<Rightarrow> renameFile h sourcePath destPath w1) of
        (Inl e, w') \<Rightarrow> (Inl (rethrow ''Failed to move file: '' e), w')
      | (Inr u, w') \<Rightarrow> (Inr (), w'))"

definition createDirectory ::
  "('w, 'j) runtime \<Rightarrow> jsstring \<Rightarrow> 'w \<Rightarrow> (thrown + unit) \<times> 'w" where
  "createDirectory h dirPath w =
     (case (if directoryExists h dirPath w
            then (Inl (Error (js ''Directory already exists: '' @ dirPath)), w)
            else ensureDirectoryExists h dirPath w) of
        (Inl e, w') \<Rightarrow> (Inl (rethrow ''Failed to create directory: '' e), w')
      | (Inr u, w') \<Rightarrow> (Inr (), w'))"

definition isEmptyDirectory :: "('w, 'j) runtime \<Rightarrow> jsstring \<Rightarrow> 'w \<Rightarrow> thrown + bool" where
  "isEmptyDirectory h dirPath w =
     (case (if \<not> directoryExists h dirPath w
            then Inl (Error (js ''Directory does not exist: '' @ dirPath))
            else (case getDirectoryContents h dirPath w of
                    Inl e \<Rightarrow> Inl e
                  | Inr contents \<Rightarrow> Inr (length contents = 0))) of
        Inl e \<Rightarrow> Inl (rethrow ''Failed to check if directory is empty: '' e)
      | Inr b \<Rightarrow> Inr b)"

definition changeFileExtension ::
  "('w, 'j) runtime \<Rightarrow> jsstring \<Rightarrow> jsstring \<Rightarrow> jsstring" where
  "changeFileExtension h filePath newExtension =
     (let parsedPath = path_parse h filePath;
          ext = (if startsWith newExtension [DOT] then newExtension else DOT # newExtension)
      in joinPaths h [pp_dir parsedPath, pp_name parsedPath @ ext])"

text \<open>\<open>!pattern || item.includes(pattern)\<close>: an absent pattern is \<open>undefined\<close>, and the
  empty string is falsy as well.\<close>

definition pattern_matches :: "jsstring option \<Rightarrow> jsstring \<Rightarrow> bool" where
  "pattern_matches pattern item =
     (case pattern of None \<Rightarrow> True | Some p \<Rightarrow> p = [] \<or> str_includes item p)"

text \<open>
  \<open>findFiles\<close> calls itself for every subdirectory and nothing bounds the depth (a cycle
  of symbolic links never ends), so the embedding counts the nesting of calls: with fuel
  \<open>n\<close> the result is \<open>None\<close> when the walk needs more than \<open>n\<close> nested calls.
  \<open>findFiles_loop\<close> is the \<open>for\<close> loop, with the array \<open>files\<close> as its accumulator; what
  is thrown inside the loop reaches the \<open>catch\<close> block of the enclosing call.
\<close>

function findFiles ::
    "nat \<Rightarrow> ('w, 'j) runtime \<Rightarrow> jsstring \<Rightarrow> jsstring option \<Rightarrow> 'w \<Rightarrow> (thrown + jsstring list) option"
  and findFiles_loop ::
    "nat \<Rightarrow> ('w, 'j) runtime \<Rightarrow> jsstring \<Rightarrow> jsstring option \<Rightarrow> 'w \<Rightarrow> jsstring list \<Rightarrow> jsstring list
       \<Rightarrow> (thrown + jsstring list) option"
where
  "findFiles 0 h dirPath pattern w = None"
| "findFiles (Suc n) h dirPath pattern w =
     (case fs_readdirSync h dirPath w of
        Inl e \<Rightarrow> Some (Inl (rethrow ''Failed to find files: '' e))
      | Inr contents \<Rightarrow>
          (case findFiles_loop n h dirPath pattern w contents [] of
             None \<Rightarrow> None
           | Some (Inl e) \<Rightarrow> Some (Inl (rethrow ''Failed to find files: '' e))
           | Some (Inr files) \<Rightarrow> Some (Inr files)))"
| "findFiles_loop n h dirPath pattern w [] files = Some (Inr files)"
| "findFiles_loop n h dirPath pattern w (item # rest) files =
     (let itemPath = joinPaths h [dirPath, item] in
      case fs_statSync h itemPath w of
        Inl e \<Rightarrow> Some (Inl e)
      | Inr st \<Rightarrow>
          if stats_isFile st then
            (if pattern_matches pattern item
             then findFiles_loop n h dirPath pattern w rest (files @ [itemPath])
             else findFiles_loop n h dirPath pattern w rest files)
          else if stats_isDirectory st then
            (case findFiles n h itemPath pattern w of
               None \<Rightarrow> None
             | Some (Inl e) \<Rightarrow> Some (Inl e)
             | Some (Inr found) \<Rightarrow> findFiles_loop n h dirPath pattern w rest (files @ found))
          else findFiles_loop n h dirPath pattern w rest files)"
  by pat_completeness auto
termination
  by (relation "inv_image (less_than <*lex*> less_than)
        (\<lambda>x. case x of
           Inl (n, h, dirPath, pattern, w) \<Rightarrow> (n, 0)
         | Inr (n, h, dirPath, pattern, w, items, files) \<Rightarrow> (n, Suc (length items)))")
     auto

section \<open>The walk of the specification\<close>

text \<open>
  The specification's description of \<open>findFiles\<close>, as a relation between a directory and
  the sequence of paths found: the entries of the directory are visited in the order of
  its listing; a file contributes its full path when the pattern is absent or occurs in
  the entry's name, and nothing otherwise; a directory contributes the walk of itself,
  in place, whatever its name; any other entry contributes nothing.
\<close>

inductive walk ::
    "('w, 'j) runtime \<Rightarrow> 'w \<Rightarrow> jsstring option \<Rightarrow> jsstring \<Rightarrow> jsstring list \<Rightarrow> bool"
  and visit_all ::
    "('w, 'j) runtime \<Rightarrow> 'w \<Rightarrow> jsstring option \<Rightarrow> jsstring \<Rightarrow> jsstring list \<Rightarrow> jsstring list \<Rightarrow> bool"
  for h :: "('w, 'j) runtime" and w :: 'w and pattern :: "jsstring option"
where
  walk_directory:
    "fs_readdirSync h dirPath w = Inr entries \<Longrightarrow> visit_all h w pattern dirPath entries found
       \<Longrightarrow> walk h w pattern dirPath found"
| visit_done:
    "visit_all h w pattern dirPath [] []"
| visit_file_included:
    "fs_statSync h (joinPaths h [dirPath, entry]) w = Inr st \<Longrightarrow> stats_isFile st
       \<Longrightarrow> pattern_matches pattern entry
       \<Longrightarrow> visit_all h w pattern dirPath rest found
       \<Longrightarrow> visit_all h w pattern dirPath (entry # rest) (joinPaths h [dirPath, entry] # found)"
| visit_file_skipped:
    "fs_statSync h (joinPaths h [dirPath, entry]) w = Inr st \<Longrightarrow> stats_isFile st
       \<Longrightarrow> \<not> pattern_matches pattern entry
       \<Longrightarrow> visit_all h w pattern dirPath rest found
       \<Longrightarrow> visit_all h w pattern dirPath (entry # rest) found"
| visit_directory:
    "fs_statSync h (joinPaths h [dirPath, entry]) w = Inr st \<Longrightarrow> \<not> stats_isFile st
       \<Longrightarrow> stats_isDirectory st
       \<Longrightarrow> walk h w pattern (joinPaths h [dirPath, entry]) below
       \<Longrightarrow> visit_all h w pattern dirPath rest found
       \<Longrightarrow> visit_all h w pattern dirPath (entry # rest) (below @ found)"
| visit_other:
    "fs_statSync h (joinPaths h [dirPath, entry]) w = Inr st \<Longrightarrow> \<not> stats_isFile st
       \<Longrightarrow> \<not> stats_isDirectory st
       \<Longrightarrow> visit_all h w pattern dirPath rest found
       \<Longrightarrow> visit_all h w pattern dirPath (entry # rest) found"

section \<open>A concrete runtime: POSIX paths over a file table\<close>

text \<open>
  Most theorems below hold for every runtime. What a read finds after a write, and what
  \<open>mkdir\<close> leaves behind, is a matter of the file system, so the theorems about them are
  proved of a file system held in memory, under any \<open>path\<close> module and JSON engine. To run
  the library on concrete inputs, this section completes that file system to a runtime,
  with the POSIX flavour of \<open>node:path\<close> and a JSON engine for five values.
\<close>

subsection \<open>\<open>path.posix\<close>\<close>

definition SLASH :: jschar where
  "SLASH = 0x2F"

text \<open>\<open>s.split(sep)\<close>\<close>

fun split_on :: "jschar \<Rightarrow> jsstring \<Rightarrow> jsstring list" where
  "split_on sep [] = [[]]"
| "split_on sep (c # cs) =
     (if c = sep then [] # split_on sep cs
      else (case split_on sep cs of [] \<Rightarrow> [[c]] | x # xs \<Rightarrow> (c # x) # xs))"

text \<open>\<open>segments.join(sep)\<close>\<close>

fun join_with :: "jschar \<Rightarrow> jsstring list \<Rightarrow> jsstring" where
  "join_with sep [] = []"
| "join_with sep [s] = s"
| "join_with sep (s # t # ss) = s @ sep # join_with sep (t # ss)"

text \<open>
  Node's \<open>normalizeString\<close>, on the segments between separators: empty segments and
  \<open>.\<close> are dropped; \<open>..\<close> removes the segment before it, unless there is none or it is
  \<open>..\<close> itself, in which case \<open>..\<close> is kept when the path may climb above its start.
\<close>

fun normalize_segments :: "bool \<Rightarrow> jsstring list \<Rightarrow> jsstring list \<Rightarrow> jsstring list" where
  "normalize_segments allowAboveRoot res [] = res"
| "normalize_segments allowAboveRoot res (seg # segs) =
     (if seg = [] \<or> seg = [DOT] then normalize_segments allowAboveRoot res segs
      else if seg = [DOT, DOT] then
        (if res \<noteq> [] \<and> last res \<noteq> [DOT, DOT]
         then normalize_segments allowAboveRoot (butlast res) segs
         else if allowAboveRoot then normalize_segments allowAboveRoot (res @ [seg]) segs
         else normalize_segments allowAboveRoot res segs)
      else normalize_segments allowAboveRoot (res @ [seg]) segs)"

definition posix_normalize :: "jsstring \<Rightarrow> jsstring" where
  "posix_normalize p =
     (if p = [] then [DOT]
      else
        let isAbsolute = (hd p = SLASH);
            trailingSeparator = (last p = SLASH);
            q = join_with SLASH (normalize_segments (\<not> isAbsolute) [] (split_on SLASH p))
        in if q = [] then (if isAbsolute then [SLASH]
                           else if trailingSeparator then [DOT, SLASH] else [DOT])
           else (let q' = (if trailingSeparator then q @ [SLASH] else q)
                 in if isAbsolute then SLASH # q' else q'))"

definition posix_join :: "jsstring list \<Rightarrow> jsstring" where
  "posix_join paths =
     (let args = filter (\<lambda>a. a \<noteq> []) paths
      in if args = [] then [DOT] else posix_normalize (join_with SLASH args))"

text \<open>
  \<open>path.posix.dirname\<close>: from the right and down to index 1, skip the trailing
  separators and the last component; the separator found then ends the result.
\<close>

definition posix_dirname :: "jsstring \<Rightarrow> jsstring" where
  "posix_dirname p =
     (if p = [] then [DOT]
      else
        let hasRoot = (hd p = SLASH);
            r1 = dropWhile (\<lambda>c. c = SLASH) (rev (tl p));
            r2 = dropWhile (\<lambda>c. c \<noteq> SLASH) r1
        in if r2 = [] then (if hasRoot then [SLASH] else [DOT])
           else if hasRoot \<and> tl r2 = [] then [SLASH, SLASH]
           else hd p # rev (tl r2))"

text \<open>
  The name and extension of a base name, as \<open>path.posix.parse\<close> splits it at the last
  dot: there is no extension when the base has no dot, when its last dot is its first
  character, or when the base is \<open>..\<close> and begins at the index \<open>startPart\<close> of Node's
  scan (which stays 0, one before the base, when the base is the only component of an
  absolute path).
\<close>

definition posix_split_ext :: "bool \<Rightarrow> jsstring \<Rightarrow> jsstring \<times> jsstring" where
  "posix_split_ext onlyComponentOfAbsolute b =
     (let post = rev (takeWhile (\<lambda>c. c \<noteq> DOT) (rev b));
          upto = rev (dropWhile (\<lambda>c. c \<noteq> DOT) (rev b))
      in if upto = [] then (b, [])
         else if butlast upto = [] then (b, [])
         else if butlast upto = [DOT] \<and> post = [] \<and> \<not> onlyComponentOfAbsolute then (b, [])
         else (butlast upto, DOT # post))"

definition posix_parse :: "jsstring \<Rightarrow> parsed_path" where
  "posix_parse p =
     (if p = [] then \<lparr>pp_root = [], pp_dir = [], pp_base = [], pp_ext = [], pp_name = []\<rparr>
      else
        let isAbsolute = (hd p = SLASH);
            rt = (if isAbsolute then [SLASH] else []);
            r1 = dropWhile (\<lambda>c. c = SLASH) (rev (if isAbsolute then tl p else p));
            b = rev (takeWhile (\<lambda>c. c \<noteq> SLASH) r1);
            r2 = dropWhile (\<lambda>c. c \<noteq> SLASH) r1;
            ne = (if r1 = [] then ([], []) else posix_split_ext (isAbsolute \<and> r2 = []) b)
        in \<lparr>pp_root = rt,
            pp_dir = (if r2 = [] then rt else rt @ rev (tl r2)),
            pp_base = b,
            pp_ext = snd ne,
            pp_name = fst ne\<rparr>)"

subsection \<open>Text as UTF-8\<close>

text \<open>
  Writing a string as UTF-8 and reading it back keeps every code unit, except that a
  surrogate without its partner comes back as U+FFFD. A string without such surrogates
  is well formed: it is a string that UTF-8 can encode.
\<close>

definition isHighSurrogate :: "jschar \<Rightarrow> bool" where
  "isHighSurrogate c \<longleftrightarrow> 0xD800 \<le> c \<and> c \<le> 0xDBFF"

definition isLowSurrogate :: "jschar \<Rightarrow> bool" where
  "isLowSurrogate c \<longleftrightarrow> 0xDC00 \<le> c \<and> c \<le> 0xDFFF"


fun toWellFormed :: "jsstring \<Rightarrow> jsstring" where
  "toWellFormed [] = []"
| "toWellFormed [c] = (if isHighSurrogate c \<or> isLowSurrogate c then [0xFFFD] else [c])"
| "toWellFormed (c # d # cs) =
     (if isHighSurrogate c \<and> isLowSurrogate d then c # d # toWellFormed cs
      else if isHighSurrogate c \<or> isLowSurrogate c then 0xFFFD # toWellFormed (d # cs)
      else c # toWellFormed (d # cs))"


subsection \<open>A file system in memory\<close>

text \<open>
  The file system is a table from resolved paths (the names from the root down; the root
  is also the working directory) to nodes, in the order of creation. A node is a regular
  file with its text, a directory, or the null device, which accepts every write and
  reads as the empty text. There are no links and no permissions.
\<close>

datatype node = File jsstring | Directory | NullDevice

type_synonym memfs = "(jsstring list \<times> node) list"

definition ENOENT :: thrown where
  "ENOENT = Error (js ''ENOENT: no such file or directory'')"

definition ENOTDIR :: thrown where
  "ENOTDIR = Error (js ''ENOTDIR: not a directory'')"

definition EISDIR :: thrown where
  "EISDIR = Error (js ''EISDIR: illegal operation on a directory'')"

definition EEXIST :: thrown where
  "EEXIST = Error (js ''EEXIST: file already exists'')"

definition EINVAL :: thrown where
  "EINVAL = Error (js ''EINVAL: invalid argument'')"

definition ENOTEMPTY :: thrown where
  "ENOTEMPTY = Error (js ''ENOTEMPTY: directory not empty'')"

definition EBUSY :: thrown where
  "EBUSY = Error (js ''EBUSY: resource busy or locked'')"

definition mem_lookup :: "memfs \<Rightarrow> jsstring list \<Rightarrow> node option" where
  "mem_lookup w k = (if k = [] then Some Directory else map_of w k)"

text \<open>
  Path resolution, name by name as POSIX does it: the node reached so far must exist and
  be a directory before the next name is taken, also when that name is empty (a doubled
  or trailing separator), \<open>.\<close> or \<open>..\<close>; the node the last name leads to need not exist.
\<close>

fun mem_walk :: "memfs \<Rightarrow> jsstring list \<Rightarrow> jsstring list \<Rightarrow> thrown + jsstring list" where
  "mem_walk w k [] = Inr k"
| "mem_walk w k (seg # segs) =
     (case mem_lookup w k of
        None \<Rightarrow> Inl ENOENT
      | Some (File c) \<Rightarrow> Inl ENOTDIR
      | Some NullDevice \<Rightarrow> Inl ENOTDIR
      | Some Directory \<Rightarrow>
          (if seg = [] \<or> seg = [DOT] then mem_walk w k segs
           else if seg = [DOT, DOT] then mem_walk w (butlast k) segs
           else mem_walk w (k @ [seg]) segs))"

definition mem_resolve :: "memfs \<Rightarrow> jsstring \<Rightarrow> thrown + jsstring list" where
  "mem_resolve w p = (if p = [] then Inl ENOENT else mem_walk w [] (split_on SLASH p))"

definition mem_find :: "memfs \<Rightarrow> jsstring \<Rightarrow> thrown + jsstring list \<times> node" where
  "mem_find w p =
     (case mem_resolve w p of
        Inl e \<Rightarrow> Inl e
      | Inr k \<Rightarrow> (case mem_lookup w k of None \<Rightarrow> Inl ENOENT | Some n \<Rightarrow> Inr (k, n)))"

definition mem_children :: "memfs \<Rightarrow> jsstring list \<Rightarrow> jsstring list" where
  "mem_children w k =
     map (\<lambda>e. last (fst e)) (filter (\<lambda>e. fst e \<noteq> [] \<and> butlast (fst e) = k) w)"

definition mem_existsSync :: "jsstring \<Rightarrow> memfs \<Rightarrow> bool" where
  "mem_existsSync p w = (case mem_find w p of Inl e \<Rightarrow> False | Inr kn \<Rightarrow> True)"

definition mem_statSync :: "jsstring \<Rightarrow> memfs \<Rightarrow> thrown + stats" where
  "mem_statSync p w =
     (case mem_find w p of
        Inl e \<Rightarrow> Inl e
      | Inr kn \<Rightarrow>
          (case snd kn of
             File c \<Rightarrow> Inr \<lparr>stats_isFile = True, stats_isDirectory = False\<rparr>
           | Directory \<Rightarrow> Inr \<lparr>stats_isFile = False, stats_isDirectory = True\<rparr>
           | NullDevice \<Rightarrow> Inr \<lparr>stats_isFile = False, stats_isDirectory = False\<rparr>))"

definition mem_readdirSync :: "jsstring \<Rightarrow> memfs \<Rightarrow> thrown + jsstring list" where
  "mem_readdirSync p w =
     (case mem_find w p of
        Inl e \<Rightarrow> Inl e
      | Inr kn \<Rightarrow>
          (case snd kn of
             File c \<Rightarrow> Inl ENOTDIR
           | Directory \<Rightarrow> Inr (mem_children w (fst kn))
           | NullDevice \<Rightarrow> Inl ENOTDIR))"

definition mem_readFileSync :: "jsstring \<Rightarrow> encoding \<Rightarrow> memfs \<Rightarrow> thrown + jsstring" where
  "mem_readFileSync p enc w =
     (case mem_find w p of
        Inl e \<Rightarrow> Inl e
      | Inr kn \<Rightarrow>
          (case snd kn of
             File c \<Rightarrow> Inr c
           | Directory \<Rightarrow> Inl EISDIR
           | NullDevice \<Rightarrow> Inr []))"

text \<open>
  \<open>mkdir\<close> with \<open>recursive: true\<close>: every name of the path that is missing is created as
  a directory; a name that is something else stops the call.
\<close>

fun mem_mkdir_walk :: "memfs \<Rightarrow> jsstring list \<Rightarrow> jsstring list \<Rightarrow> (thrown + unit) \<times> memfs" where
  "mem_mkdir_walk w k [] = (Inr (), w)"
| "mem_mkdir_walk w k (seg # segs) =
     (if seg = [] \<or> seg = [DOT] then mem_mkdir_walk w k segs
      else if seg = [DOT, DOT] then mem_mkdir_walk w (butlast k) segs
      else (case mem_lookup w (k @ [seg]) of
              None \<Rightarrow> mem_mkdir_walk (w @ [(k @ [seg], Directory)]) (k @ [seg]) segs
            | Some Directory \<Rightarrow> mem_mkdir_walk w (k @ [seg]) segs
            | Some (File c) \<Rightarrow> (Inl (if segs = [] then EEXIST else ENOTDIR), w)
            | Some NullDevice \<Rightarrow> (Inl (if segs = [] then EEXIST else ENOTDIR), w)))"

definition mem_mkdirSync :: "jsstring \<Rightarrow> mkdir_options \<Rightarrow> memfs \<Rightarrow> (thrown + unit) \<times> memfs" where
  "mem_mkdirSync p opts w =
     (if p = [] then (Inl ENOENT, w)
      else if recursive opts then mem_mkdir_walk w [] (split_on SLASH p)
      else (case mem_resolve w p of
              Inl e \<Rightarrow> (Inl e, w)
            | Inr k \<Rightarrow>
                (if mem_lookup w k \<noteq> None then (Inl EEXIST, w)
                 else (Inr (), w @ [(k, Directory)]))))"

text \<open>
  A write replaces or creates a regular file, whose text is what UTF-8 keeps of the
  string; the null device takes the write and keeps nothing.
\<close>

definition mem_writeFileSync ::
  "jsstring \<Rightarrow> jsstring \<Rightarrow> encoding \<Rightarrow> memfs \<Rightarrow> (thrown + unit) \<times> memfs" where
  "mem_writeFileSync p content enc w =
     (case mem_resolve w p of
        Inl e \<Rightarrow> (Inl e, w)
      | Inr k \<Rightarrow>
          (case mem_lookup w k of
             None \<Rightarrow> (Inr (), AList.update k (File (toWellFormed content)) w)
           | Some (File c) \<Rightarrow> (Inr (), AList.update k (File (toWellFormed content)) w)
           | Some Directory \<Rightarrow> (Inl EISDIR, w)
           | Some NullDevice \<Rightarrow> (Inr (), w)))"

text \<open>
  \<open>rename\<close>: the source must exist; a directory does not replace a file, a file does not
  replace a directory, and a directory replaces only an empty one and does not move
  below itself. The nodes at and below the source are filed under the new path.
\<close>

definition mem_renameSync :: "jsstring \<Rightarrow> jsstring \<Rightarrow> memfs \<Rightarrow> (thrown + unit) \<times> memfs" where
  "mem_renameSync oldPath newPath w =
     (case mem_find w oldPath of
        Inl e \<Rightarrow> (Inl e, w)
      | Inr kn \<Rightarrow>
          (case mem_resolve w newPath of
             Inl e \<Rightarrow> (Inl e, w)
           | Inr k' \<Rightarrow>
               (let k = fst kn; n = snd kn in
                if k = [] \<or> k' = [] then (Inl EBUSY, w)
                else if k = k' then (Inr (), w)
                else if n = Directory \<and> prefix k k' then (Inl EINVAL, w)
                else if n \<noteq> Directory \<and> mem_lookup w k' = Some Directory then (Inl EISDIR, w)
                else if n = Directory \<and> mem_lookup w k' \<noteq> None
                        \<and> mem_lookup w k' \<noteq> Some Directory then (Inl ENOTDIR, w)
                else if n = Directory \<and> mem_children w k' \<noteq> [] then (Inl ENOTEMPTY, w)
                else (Inr (),
                      filter (\<lambda>e. \<not> prefix k (fst e) \<and> fst e \<noteq> k') w
                      @ map (\<lambda>e. (k' @ drop (length k) (fst e), snd e))
                            (filter (\<lambda>e. prefix k (fst e)) w)))))"

text \<open>A runtime runs on this file system when its \<open>fs\<close> calls are the ones above; its
  \<open>path\<close> module and its JSON engine are any.\<close>

definition in_memory :: "(memfs, 'j) runtime \<Rightarrow> bool" where
  "in_memory h \<longleftrightarrow>
     fs_existsSync h = mem_existsSync \<and> fs_statSync h = mem_statSync
     \<and> fs_readdirSync h = mem_readdirSync \<and> fs_readFileSync h = mem_readFileSync
     \<and> fs_mkdirSync h = mem_mkdirSync \<and> fs_writeFileSync h = mem_writeFileSync
     \<and> fs_renameSync h = mem_renameSync"

subsection \<open>A JSON engine for five values\<close>

text \<open>
  The values \<open>{}\<close>, \<open>[]\<close>, \<open>null\<close>, \<open>true\<close> and \<open>false\<close>, which print the same at every
  indentation. The parser knows these five texts and rejects every other text with a
  \<open>SyntaxError\<close>, also the JSON texts of values that the type does not have.
\<close>

datatype json_atom = JEmptyObject | JEmptyArray | JNull | JBool bool

definition atom_stringify :: "json_atom \<Rightarrow> nat \<Rightarrow> thrown + jsstring" where
  "atom_stringify v indent =
     Inr (case v of
            JEmptyObject \<Rightarrow> js ''{}''
          | JEmptyArray \<Rightarrow> js ''[]''
          | JNull \<Rightarrow> js ''null''
          | JBool b \<Rightarrow> (if b then js ''true'' else js ''false''))"

definition atom_parse :: "jsstring \<Rightarrow> thrown + json_atom" where
  "atom_parse text =
     (if text = js ''{}'' then Inr JEmptyObject
      else if text = js ''[]'' then Inr JEmptyArray
      else if text = js ''null'' then Inr JNull
      else if text = js ''true'' then Inr (JBool True)
      else if text = js ''false'' then Inr (JBool False)
      else Inl (Error (js ''SyntaxError: Unexpected token'')))"

definition node_posix :: "(memfs, json_atom) runtime" where
  "node_posix =
     \<lparr>fs_existsSync = mem_existsSync,
      fs_statSync = mem_statSync,
      fs_readdirSync = mem_readdirSync,
      fs_readFileSync = mem_readFileSync,
      fs_mkdirSync = mem_mkdirSync,
      fs_writeFileSync = mem_writeFileSync,
      fs_renameSync = mem_renameSync,
      path_join = posix_join,
      path_dirname = posix_dirname,
      path_parse = posix_parse,
      JSON_stringify = atom_stringify,
      JSON_parse = atom_parse\<rparr>"

text \<open>The tree of the specification's example: \<open>a.txt\<close>, \<open>b.js\<close> and a subdirectory
  holding \<open>c.txt\<close>, under \<open>/dir\<close>.\<close>

definition example_tree :: memfs where
  "example_tree =
     [([js ''dir''], Directory),
      ([js ''dir'', js ''a.txt''], File (js ''alpha'')),
      ([js ''dir'', js ''b.js''], File (js ''beta'')),
      ([js ''dir'', js ''sub''], Directory),
      ([js ''dir'', js ''sub'', js ''c.txt''], File (js ''gamma''))]"


section \<open>Properties of sanitizeFilename\<close>

lemma replace_runs_replicate:
  "\<not> P a \<Longrightarrow> replace_runs P r (replicate n a @ s) = replicate n a @ replace_runs P r s"
  by (induction n) simp_all

lemma dropWhile_replicate_append:
  "\<not> P a \<Longrightarrow> 0 < n \<Longrightarrow> dropWhile P (replicate n a @ s) = replicate n a @ s"
  by (cases n) simp_all

lemma replace_runs_subset: "set (replace_runs P r s) \<subseteq> set s \<union> set r"
proof (induction P r s rule: replace_runs.induct)
  case (1 P r)
  then show ?case by simp
next
  case (2 P r c cs)
  have "set (dropWhile P cs) \<subseteq> set cs"
    by (rule set_dropWhileD[THEN subsetI])
  with 2 show ?case by (auto split: if_splits)
qed

lemma replace_runs_none: "c \<in> set (replace_runs P r s) \<Longrightarrow> P c \<Longrightarrow> c \<in> set r"
  by (induction P r s rule: replace_runs.induct) (auto split: if_splits)

lemma trim_hyphens_subset: "set (trim_hyphens s) \<subseteq> set s"
  unfolding trim_hyphens_def by (auto dest!: set_dropWhileD)

lemma remove_class_subset: "set (remove_class cls s) \<subseteq> set s"
  by (simp add: remove_class_def)

lemma replace_class_invalid:
  "c \<in> set (replace_class invalid_chars HYPHEN s) \<Longrightarrow> c \<notin> set invalid_chars"
  by (auto simp: replace_class_def invalid_chars_def HYPHEN_def split: if_splits)

text \<open>The example of the test suite and of the specification.\<close>

lemma sanitizeFilename_example:
  "sanitizeFilename (js ''Invalid/File:Name? *'' @ [0x27, 0x22, 0x60, 0xB4] @ js ''!@#.txt'')
     = js ''Invalid-File-Name-txt''"
  by (simp add: sanitizeFilename_def js_def substring0_def trim_hyphens_def isHyphen_def
      HYPHEN_def isWhiteSpace_def remove_class_def replace_class_def invalid_chars_def
      quote_chars_def punctuation_chars_def)

text \<open>The result has at most 255 code units.\<close>

lemma sanitizeFilename_length: "length (sanitizeFilename s) \<le> 255"
  by (simp add: sanitizeFilename_def substring0_def)

lemma sanitizeFilename_set:
  "set (sanitizeFilename s) \<subseteq>
     insert HYPHEN (set (replace_runs isWhiteSpace [HYPHEN]
             (remove_class punctuation_chars
               (remove_class quote_chars
                 (replace_class invalid_chars HYPHEN s)))))"
proof
  fix c
  assume "c \<in> set (sanitizeFilename s)"
  then have "c \<in> set (trim_hyphens
         (replace_runs isHyphen [HYPHEN]
           (replace_runs isWhiteSpace [HYPHEN]
             (remove_class punctuation_chars
               (remove_class quote_chars
                 (replace_class invalid_chars HYPHEN s))))))"
    unfolding sanitizeFilename_def substring0_def by (rule in_set_takeD)
  then have "c \<in> set (replace_runs isHyphen [HYPHEN]
           (replace_runs isWhiteSpace [HYPHEN]
             (remove_class punctuation_chars
               (remove_class quote_chars
                 (replace_class invalid_chars HYPHEN s)))))"
    by (rule subsetD[OF trim_hyphens_subset])
  then have "c \<in> set (replace_runs isWhiteSpace [HYPHEN]
             (remove_class punctuation_chars
               (remove_class quote_chars
                 (replace_class invalid_chars HYPHEN s)))) \<union> set [HYPHEN]"
    by (rule subsetD[OF replace_runs_subset])
  then show "c \<in> insert HYPHEN (set (replace_runs isWhiteSpace [HYPHEN]
             (remove_class punctuation_chars
               (remove_class quote_chars
                 (replace_class invalid_chars HYPHEN s)))))"
    by simp
qed

text \<open>The result holds none of \<open>< > : " / \ | ? *\<close>.\<close>

lemma sanitizeFilename_no_invalid:
  assumes "c \<in> set (sanitizeFilename s)"
  shows "c \<notin> set invalid_chars"
proof -
  have "c = HYPHEN \<or> c \<in> set (replace_runs isWhiteSpace [HYPHEN]
             (remove_class punctuation_chars
               (remove_class quote_chars
                 (replace_class invalid_chars HYPHEN s))))"
    using assms sanitizeFilename_set by blast
  then have "c = HYPHEN \<or> c \<in> set (remove_class punctuation_chars
               (remove_class quote_chars
                 (replace_class invalid_chars HYPHEN s)))"
    using replace_runs_subset[of isWhiteSpace "[HYPHEN]"] by fastforce
  then have "c = HYPHEN \<or> c \<in> set (replace_class invalid_chars HYPHEN s)"
    using remove_class_subset by blast
  then show ?thesis
    using replace_class_invalid by (auto simp: invalid_chars_def HYPHEN_def)
qed

text \<open>The result holds no white space.\<close>

lemma sanitizeFilename_no_whitespace:
  assumes "c \<in> set (sanitizeFilename s)"
  shows "\<not> isWhiteSpace c"
proof
  assume w: "isWhiteSpace c"
  have nh: "c \<noteq> HYPHEN"
    using w by (auto simp: isWhiteSpace_def HYPHEN_def)
  have "c \<in> set (replace_runs isWhiteSpace [HYPHEN]
             (remove_class punctuation_chars
               (remove_class quote_chars
                 (replace_class invalid_chars HYPHEN s))))"
    using assms sanitizeFilename_set nh by blast
  then have "c \<in> set [HYPHEN]"
    using w by (rule replace_runs_none)
  with nh show False by simp
qed

lemma hd_trim_hyphens: "trim_hyphens t \<noteq> [] \<Longrightarrow> \<not> isHyphen (hd (trim_hyphens t))"
proof -
  assume ne: "trim_hyphens t \<noteq> []"
  define u where "u = dropWhile isHyphen t"
  have tu: "trim_hyphens t = rev (dropWhile isHyphen (rev u))"
    by (simp add: trim_hyphens_def u_def)
  have un: "u \<noteq> []"
    using ne tu by auto
  then have hu: "\<not> isHyphen (hd u)"
    unfolding u_def by (rule hd_dropWhile)
  have "\<exists>v. u = trim_hyphens t @ v"
    unfolding tu by (metis rev_append rev_rev_ident takeWhile_dropWhile_id)
  then obtain v where "u = trim_hyphens t @ v" ..
  with ne have "hd u = hd (trim_hyphens t)"
    by (metis hd_append2)
  with hu show ?thesis by simp
qed

text \<open>The result does not start with a hyphen.\<close>

lemma sanitizeFilename_no_leading_hyphen:
  assumes "sanitizeFilename s \<noteq> []"
  shows "hd (sanitizeFilename s) \<noteq> HYPHEN"
proof -
  define t where "t = replace_runs isHyphen [HYPHEN]
           (replace_runs isWhiteSpace [HYPHEN]
             (remove_class punctuation_chars
               (remove_class quote_chars
                 (replace_class invalid_chars HYPHEN s))))"
  have eq: "sanitizeFilename s = take 255 (trim_hyphens t)"
    by (simp add: sanitizeFilename_def substring0_def t_def)
  with assms have tn: "trim_hyphens t \<noteq> []"
    by auto
  have "hd (sanitizeFilename s) = hd (trim_hyphens t)"
    unfolding eq using tn by (cases "trim_hyphens t") simp_all
  with hd_trim_hyphens[OF tn] show ?thesis
    by (simp add: isHyphen_def)
qed

text \<open>
  Claim C1. For every input, \<open>sanitizeFilename\<close> returns at most 255 characters, none of
  them among \<open>< > : " / \ | ? *\<close>, with white space collapsed to hyphens and no hyphen at
  either end. The length, the characters, the white space and the leading hyphen are as
  claimed (the lemmas above). The trailing hyphen is not: the hyphens at the ends are
  removed before the string is cut to 255 characters, and the cut can end on a hyphen.
  For 254 times \<open>a\<close> followed by a space and \<open>b\<close>, the result is 254 times \<open>a\<close> followed
  by a hyphen.
\<close>

theorem sanitizeFilename_cut_ends_on_hyphen:
  "sanitizeFilename (replicate 254 0x61 @ [0x20, 0x62]) = replicate 254 0x61 @ [HYPHEN]"
proof -
  let ?a = "0x61 :: jschar"
  have s13: "remove_class punctuation_chars (remove_class quote_chars
          (replace_class invalid_chars HYPHEN (replicate 254 ?a @ [0x20, 0x62])))
        = replicate 254 ?a @ [0x20, 0x62]"
    by (simp add: remove_class_def replace_class_def invalid_chars_def quote_chars_def
        punctuation_chars_def)
  have s4: "replace_runs isWhiteSpace [HYPHEN] (replicate 254 ?a @ [0x20, 0x62])
        = replicate 254 ?a @ [HYPHEN, 0x62]"
    by (simp add: replace_runs_replicate isWhiteSpace_def)
  have s5: "replace_runs isHyphen [HYPHEN] (replicate 254 ?a @ [HYPHEN, 0x62])
        = replicate 254 ?a @ [HYPHEN, 0x62]"
    by (simp add: replace_runs_replicate isHyphen_def HYPHEN_def)
  have s6: "trim_hyphens (replicate 254 ?a @ [HYPHEN, 0x62]) = replicate 254 ?a @ [HYPHEN, 0x62]"
    by (simp add: trim_hyphens_def dropWhile_replicate_append isHyphen_def HYPHEN_def)
  have s7: "substring0 255 (replicate 254 ?a @ [HYPHEN, 0x62]) = replicate 254 ?a @ [HYPHEN]"
    by (simp add: substring0_def)
  show ?thesis
    unfolding sanitizeFilename_def s13 s4 s5 s6 s7 ..
qed

section \<open>Messages and substrings\<close>

lemma str_includes_sublist: "str_includes s pat \<longleftrightarrow> sublist pat s"
  by (induction s) (simp_all add: sublist_Cons_right)

lemma str_includes_middle: "str_includes (a @ pat @ b) pat"
  by (simp add: str_includes_sublist)

section \<open>Directory listings\<close>

text \<open>
  Claim C10. \<open>getDirectoryContents\<close> returns the empty sequence, and no error, whenever
  the path is not an existing directory: when \<open>directoryExists\<close> is false, and so when an
  entry exists at the path that is no directory (a regular file), and when nothing
  exists at the path.
\<close>

theorem getDirectoryContents_empty_unless_directory:
  "(\<not> directoryExists h dirPath w \<longrightarrow> getDirectoryContents h dirPath w = Inr [])
   \<and> (fs_existsSync h dirPath w \<and> fs_statSync h dirPath w = Inr st \<and> \<not> stats_isDirectory st
        \<longrightarrow> \<not> directoryExists h dirPath w \<and> getDirectoryContents h dirPath w = Inr [])
   \<and> (\<not> fs_existsSync h dirPath w
        \<longrightarrow> \<not> directoryExists h dirPath w \<and> getDirectoryContents h dirPath w = Inr [])"
  by (simp add: getDirectoryContents_def directoryExists_def)

theorem getDirectoryContents_empty_unless_directory_witness:
  "fs_existsSync node_posix (js ''/dir/a.txt'') example_tree
   \<and> fs_statSync node_posix (js ''/dir/a.txt'') example_tree
        = Inr \<lparr>stats_isFile = True, stats_isDirectory = False\<rparr>
   \<and> \<not> directoryExists node_posix (js ''/dir/a.txt'') example_tree
   \<and> getDirectoryContents node_posix (js ''/dir/a.txt'') example_tree = Inr []
   \<and> \<not> fs_existsSync node_posix (js ''/nowhere'') example_tree
   \<and> getDirectoryContents node_posix (js ''/nowhere'') example_tree = Inr []"
proof -
  have e: "fs_existsSync node_posix (js ''/dir/a.txt'') example_tree"
    by code_simp
  have s: "fs_statSync node_posix (js ''/dir/a.txt'') example_tree
        = Inr \<lparr>stats_isFile = True, stats_isDirectory = False\<rparr>"
    by code_simp
  have n: "\<not> fs_existsSync node_posix (js ''/nowhere'') example_tree"
    by code_simp
  show ?thesis
    using e s n
      getDirectoryContents_empty_unless_directory
        [where h = node_posix and dirPath = "js ''/dir/a.txt''" and w = example_tree
           and st = "\<lparr>stats_isFile = True, stats_isDirectory = False\<rparr>"]
      getDirectoryContents_empty_unless_directory
        [where h = node_posix and dirPath = "js ''/nowhere''" and w = example_tree]
    by simp
qed

text \<open>
  Claim C6. \<open>isEmptyDirectory\<close> fails with a message containing "does not exist" when the
  path is not an existing directory; on an existing directory whose listing is empty it
  returns true; on an existing directory whose listing has at least one entry it returns
  false.
\<close>

theorem isEmptyDirectory_cases:
  "(\<not> directoryExists h dirPath w \<longrightarrow>
      (\<exists>m. isEmptyDirectory h dirPath w = Inl (Error m) \<and> str_includes m (js ''does not exist'')))
   \<and> (directoryExists h dirPath w \<and> fs_readdirSync h dirPath w = Inr [] \<longrightarrow>
        isEmptyDirectory h dirPath w = Inr True)
   \<and> (directoryExists h dirPath w \<and> fs_readdirSync h dirPath w = Inr (entry # entries) \<longrightarrow>
        isEmptyDirectory h dirPath w = Inr False)"
proof -
  have split: "js ''Failed to check if directory is empty: '' @ js ''Directory does not exist: '' @ dirPath
      = js ''Failed to check if directory is empty: Directory '' @ js ''does not exist''
          @ (js '': '' @ dirPath)"
    by (simp add: js_def)
  have inc: "str_includes (js ''Failed to check if directory is empty: ''
               @ js ''Directory does not exist: '' @ dirPath) (js ''does not exist'')"
    unfolding split by (rule str_includes_middle)
  have a: "\<not> directoryExists h dirPath w \<longrightarrow>
      (\<exists>m. isEmptyDirectory h dirPath w = Inl (Error m) \<and> str_includes m (js ''does not exist''))"
    using inc by (simp add: isEmptyDirectory_def rethrow_def error_message_def)
  have b: "directoryExists h dirPath w \<and> fs_readdirSync h dirPath w = Inr [] \<longrightarrow>
        isEmptyDirectory h dirPath w = Inr True"
    by (simp add: isEmptyDirectory_def getDirectoryContents_def)
  have c: "directoryExists h dirPath w \<and> fs_readdirSync h dirPath w = Inr (entry # entries) \<longrightarrow>
        isEmptyDirectory h dirPath w = Inr False"
    by (simp add: isEmptyDirectory_def getDirectoryContents_def)
  from a b c show ?thesis by blast
qed

theorem isEmptyDirectory_cases_witness:
  "\<not> directoryExists node_posix (js ''/dir/a.txt'') example_tree
   \<and> (\<exists>m. isEmptyDirectory node_posix (js ''/dir/a.txt'') example_tree = Inl (Error m)
          \<and> str_includes m (js ''does not exist''))
   \<and> directoryExists node_posix (js ''/dir/sub'') example_tree
   \<and> fs_readdirSync node_posix (js ''/dir/sub'') example_tree = Inr [js ''c.txt'']
   \<and> isEmptyDirectory node_posix (js ''/dir/sub'') example_tree = Inr False
   \<and> directoryExists node_posix (js ''/dir'') [([js ''dir''], Directory)]
   \<and> fs_readdirSync node_posix (js ''/dir'') [([js ''dir''], Directory)] = Inr []
   \<and> isEmptyDirectory node_posix (js ''/dir'') [([js ''dir''], Directory)] = Inr True"
proof -
  have a: "\<not> directoryExists node_posix (js ''/dir/a.txt'') example_tree"
    by code_simp
  have b: "directoryExists node_posix (js ''/dir/sub'') example_tree"
    by code_simp
  have c: "fs_readdirSync node_posix (js ''/dir/sub'') example_tree = Inr [js ''c.txt'']"
    by code_simp
  have d: "directoryExists node_posix (js ''/dir'') [([js ''dir''], Directory)]"
    by code_simp
  have e: "fs_readdirSync node_posix (js ''/dir'') [([js ''dir''], Directory)] = Inr []"
    by code_simp
  show ?thesis
    using a b c d e
      isEmptyDirectory_cases
        [where h = node_posix and dirPath = "js ''/dir/a.txt''" and w = example_tree]
      isEmptyDirectory_cases
        [where h = node_posix and dirPath = "js ''/dir/sub''" and w = example_tree
           and entry = "js ''c.txt''" and entries = "[]"]
      isEmptyDirectory_cases
        [where h = node_posix and dirPath = "js ''/dir''" and w = "[([js ''dir''], Directory)]"]
    by simp
qed

section \<open>Reading JSON\<close>

text \<open>
  Claim C9. \<open>readJsonFile\<close> reads the file as text and parses the text as JSON, and adds
  no wrapper of its own: when the read fails, the error is the one \<open>readTextFile\<close> throws
  (the cause under "Failed to read text file: "), and when the read succeeds the result,
  error or value, is exactly what the JSON parser gives for the text.
\<close>

theorem readJsonFile_propagates_errors:
  "(fs_readFileSync h filePath Utf8 w = Inl e \<longrightarrow>
      readTextFile h filePath w = Inl (Error (js ''Failed to read text file: '' @ error_message e))
      \<and> readJsonFile h filePath w
            = Inl (Error (js ''Failed to read text file: '' @ error_message e)))
   \<and> (readTextFile h filePath w = Inl e' \<longrightarrow> readJsonFile h filePath w = Inl e')
   \<and> (readTextFile h filePath w = Inr json \<longrightarrow> readJsonFile h filePath w = JSON_parse h json)"
  by (simp add: readJsonFile_def readTextFile_def rethrow_def)

theorem readJsonFile_propagates_errors_witness:
  "fs_readFileSync node_posix (js ''/nowhere'') Utf8 example_tree = Inl ENOENT
   \<and> readJsonFile node_posix (js ''/nowhere'') example_tree
       = Inl (Error (js ''Failed to read text file: ENOENT: no such file or directory''))
   \<and> readTextFile node_posix (js ''/dir/a.txt'') example_tree = Inr (js ''alpha'')
   \<and> JSON_parse node_posix (js ''alpha'') = Inl (Error (js ''SyntaxError: Unexpected token''))
   \<and> readJsonFile node_posix (js ''/dir/a.txt'') example_tree
       = Inl (Error (js ''SyntaxError: Unexpected token''))"
proof -
  have a: "fs_readFileSync node_posix (js ''/nowhere'') Utf8 example_tree = Inl ENOENT"
    by code_simp
  have b: "readTextFile node_posix (js ''/dir/a.txt'') example_tree = Inr (js ''alpha'')"
    by code_simp
  have c: "JSON_parse node_posix (js ''alpha'') = Inl (Error (js ''SyntaxError: Unexpected token''))"
    by code_simp
  have d: "js ''Failed to read text file: '' @ error_message ENOENT
      = js ''Failed to read text file: ENOENT: no such file or directory''"
    by (simp add: js_def ENOENT_def error_message_def)
  show ?thesis
    using a b c d
      readJsonFile_propagates_errors
        [where h = node_posix and filePath = "js ''/nowhere''" and w = example_tree and e = ENOENT]
      readJsonFile_propagates_errors
        [where h = node_posix and filePath = "js ''/dir/a.txt''" and w = example_tree
           and json = "js ''alpha''"]
    by simp
qed

section \<open>Nested error messages\<close>

lemma writeTextFile_error_shape:
  "writeTextFile h filePath content w = (Inl e, w') \<Longrightarrow>
     \<exists>cause. e = Error (js ''Failed to write text file: '' @ cause)"
  by (auto simp: writeTextFile_def rethrow_def Let_def split: prod.splits sum.splits)

lemma renameFile_error_shape:
  "renameFile h oldPath newPath w = (Inl e, w') \<Longrightarrow>
     \<exists>cause. e = Error (js ''Failed to rename file: '' @ cause)"
  by (auto simp: renameFile_def rethrow_def split: prod.splits sum.splits)

lemma writeJsonFile_inner_failure:
  assumes "ensureDirectoryExists h (getDirectoryName h filePath) w = (Inr (), w1)"
    and "JSON_stringify h data 2 = Inr content"
    and "writeTextFile h filePath content w1 = (Inl e, w2)"
  shows "writeJsonFile h filePath data w
           = (Inl (Error (js ''Failed to write JSON file: '' @ error_message e)), w2)"
  using assms by (simp add: writeJsonFile_def rethrow_def)

lemma moveFile_inner_failure:
  assumes "ensureDirectoryExists h (getDirectoryName h destPath) w = (Inr (), v1)"
    and "renameFile h sourcePath destPath v1 = (Inl e, v2)"
  shows "moveFile h sourcePath destPath w
           = (Inl (Error (js ''Failed to move file: '' @ error_message e)), v2)"
  using assms by (simp add: moveFile_def rethrow_def)

lemma error_message_Error: "error_message (Error m) = m"
  by (simp add: error_message_def)

text \<open>
  Claim C8. When the inner operation fails, \<open>writeJsonFile\<close> and \<open>moveFile\<close> wrap a
  message that is wrapped already: if \<open>writeTextFile\<close>, called by \<open>writeJsonFile\<close> once the
  directory is ensured and the data serialised, fails, its message is
  "Failed to write text file: cause" and \<open>writeJsonFile\<close> fails with
  "Failed to write JSON file: Failed to write text file: cause"; if \<open>renameFile\<close>, called
  by \<open>moveFile\<close> once the directory is ensured, fails, its message is
  "Failed to rename file: cause" and \<open>moveFile\<close> fails with
  "Failed to move file: Failed to rename file: cause".
\<close>

theorem nested_error_messages:
  "(ensureDirectoryExists h (getDirectoryName h filePath) w = (Inr (), w1)
      \<and> JSON_stringify h data 2 = Inr content
      \<and> writeTextFile h filePath content w1 = (Inl e, w2)
     \<longrightarrow> (\<exists>cause. e = Error (js ''Failed to write text file: '' @ cause)
            \<and> writeJsonFile h filePath data w
                = (Inl (Error (js ''Failed to write JSON file: ''
                                 @ js ''Failed to write text file: '' @ cause)), w2)))
   \<and> (ensureDirectoryExists h (getDirectoryName h destPath) w = (Inr (), v1)
      \<and> renameFile h sourcePath destPath v1 = (Inl e', v2)
     \<longrightarrow> (\<exists>cause. e' = Error (js ''Failed to rename file: '' @ cause)
            \<and> moveFile h sourcePath destPath w
                = (Inl (Error (js ''Failed to move file: ''
                                 @ js ''Failed to rename file: '' @ cause)), v2)))"
proof (intro conjI impI; elim conjE)
  assume a1: "ensureDirectoryExists h (getDirectoryName h filePath) w = (Inr (), w1)"
    and a2: "JSON_stringify h data 2 = Inr content"
    and a3: "writeTextFile h filePath content w1 = (Inl e, w2)"
  from writeTextFile_error_shape[OF a3]
  obtain cause where c: "e = Error (js ''Failed to write text file: '' @ cause)" ..
  have "writeJsonFile h filePath data w
          = (Inl (Error (js ''Failed to write JSON file: '' @ error_message e)), w2)"
    using a1 a2 a3 by (rule writeJsonFile_inner_failure)
  then have r: "writeJsonFile h filePath data w
          = (Inl (Error (js ''Failed to write JSON file: ''
                           @ js ''Failed to write text file: '' @ cause)), w2)"
    unfolding c error_message_Error .
  show "\<exists>cause. e = Error (js ''Failed to write text file: '' @ cause)
            \<and> writeJsonFile h filePath data w
                = (Inl (Error (js ''Failed to write JSON file: ''
                                 @ js ''Failed to write text file: '' @ cause)), w2)"
    by (rule exI[of _ cause]) (rule conjI[OF c r])
next
  assume a1: "ensureDirectoryExists h (getDirectoryName h destPath) w = (Inr (), v1)"
    and a2: "renameFile h sourcePath destPath v1 = (Inl e', v2)"
  from renameFile_error_shape[OF a2]
  obtain cause where c: "e' = Error (js ''Failed to rename file: '' @ cause)" ..
  have "moveFile h sourcePath destPath w
          = (Inl (Error (js ''Failed to move file: '' @ error_message e')), v2)"
    using a1 a2 by (rule moveFile_inner_failure)
  then have r: "moveFile h sourcePath destPath w
          = (Inl (Error (js ''Failed to move file: ''
                           @ js ''Failed to rename file: '' @ cause)), v2)"
    unfolding c error_message_Error .
  show "\<exists>cause. e' = Error (js ''Failed to rename file: '' @ cause)
            \<and> moveFile h sourcePath destPath w
                = (Inl (Error (js ''Failed to move file: ''
                                 @ js ''Failed to rename file: '' @ cause)), v2)"
    by (rule exI[of _ cause]) (rule conjI[OF c r])
qed

theorem nested_error_messages_witness:
  "ensureDirectoryExists node_posix (getDirectoryName node_posix (js ''/dir/sub'')) example_tree
     = (Inr (), example_tree)
   \<and> JSON_stringify node_posix JNull 2 = Inr (js ''null'')
   \<and> writeTextFile node_posix (js ''/dir/sub'') (js ''null'') example_tree
       = (Inl (Error (js ''Failed to write text file: '' @ error_message EISDIR)), example_tree)
   \<and> writeJsonFile node_posix (js ''/dir/sub'') JNull example_tree
       = (Inl (Error (js ''Failed to write JSON file: '' @ js ''Failed to write text file: ''
                        @ error_message EISDIR)), example_tree)
   \<and> renameFile node_posix (js ''/nowhere'') (js ''/dir/x'') example_tree
       = (Inl (Error (js ''Failed to rename file: '' @ error_message ENOENT)), example_tree)
   \<and> moveFile node_posix (js ''/nowhere'') (js ''/dir/x'') example_tree
       = (Inl (Error (js ''Failed to move file: '' @ js ''Failed to rename file: ''
                        @ error_message ENOENT)), example_tree)"
proof -
  have a: "ensureDirectoryExists node_posix (getDirectoryName node_posix (js ''/dir/sub''))
             example_tree = (Inr (), example_tree)"
    by code_simp
  have b: "JSON_stringify node_posix JNull 2 = Inr (js ''null'')"
    by code_simp
  have c: "writeTextFile node_posix (js ''/dir/sub'') (js ''null'') example_tree
       = (Inl (Error (js ''Failed to write text file: '' @ error_message EISDIR)), example_tree)"
    by code_simp
  have d: "ensureDirectoryExists node_posix (getDirectoryName node_posix (js ''/dir/x''))
             example_tree = (Inr (), example_tree)"
    by code_simp
  have e: "renameFile node_posix (js ''/nowhere'') (js ''/dir/x'') example_tree
       = (Inl (Error (js ''Failed to rename file: '' @ error_message ENOENT)), example_tree)"
    by code_simp
  note n = nested_error_messages
        [where h = node_posix and filePath = "js ''/dir/sub''" and data = JNull
           and w = example_tree and ?w1.0 = example_tree and ?w2.0 = example_tree
           and content = "js ''null''"
           and e = "Error (js ''Failed to write text file: '' @ error_message EISDIR)"
           and destPath = "js ''/dir/x''" and sourcePath = "js ''/nowhere''"
           and ?v1.0 = example_tree and ?v2.0 = example_tree
           and e' = "Error (js ''Failed to rename file: '' @ error_message ENOENT)"]
  have "\<exists>cause. Error (js ''Failed to write text file: '' @ error_message EISDIR)
                  = Error (js ''Failed to write text file: '' @ cause)
            \<and> writeJsonFile node_posix (js ''/dir/sub'') JNull example_tree
                = (Inl (Error (js ''Failed to write JSON file: ''
                                 @ js ''Failed to write text file: '' @ cause)), example_tree)"
    by (rule mp[OF conjunct1[OF n]]) (intro conjI a b c)
  then obtain cause1
    where "Error (js ''Failed to write text file: '' @ error_message EISDIR)
                  = Error (js ''Failed to write text file: '' @ cause1)"
      and "writeJsonFile node_posix (js ''/dir/sub'') JNull example_tree
                = (Inl (Error (js ''Failed to write JSON file: ''
                                 @ js ''Failed to write text file: '' @ cause1)), example_tree)"
    by (elim exE conjE)
  then have j: "writeJsonFile node_posix (js ''/dir/sub'') JNull example_tree
       = (Inl (Error (js ''Failed to write JSON file: '' @ js ''Failed to write text file: ''
                        @ error_message EISDIR)), example_tree)"
    by simp
  have "\<exists>cause. Error (js ''Failed to rename file: '' @ error_message ENOENT)
                  = Error (js ''Failed to rename file: '' @ cause)
            \<and> moveFile node_posix (js ''/nowhere'') (js ''/dir/x'') example_tree
                = (Inl (Error (js ''Failed to move file: ''
                                 @ js ''Failed to rename file: '' @ cause)), example_tree)"
    by (rule mp[OF conjunct2[OF n]]) (intro conjI d e)
  then obtain cause2
    where "Error (js ''Failed to rename file: '' @ error_message ENOENT)
                  = Error (js ''Failed to rename file: '' @ cause2)"
      and "moveFile node_posix (js ''/nowhere'') (js ''/dir/x'') example_tree
                = (Inl (Error (js ''Failed to move file: ''
                                 @ js ''Failed to rename file: '' @ cause2)), example_tree)"
    by (elim exE conjE)
  then have m: "moveFile node_posix (js ''/nowhere'') (js ''/dir/x'') example_tree
       = (Inl (Error (js ''Failed to move file: '' @ js ''Failed to rename file: ''
                        @ error_message ENOENT)), example_tree)"
    by simp
  show ?thesis
    by (intro conjI a b c j e m)
qed

section \<open>Text round trip\<close>




text \<open>Resolution asks only that certain nodes be directories, so it gives the same
  result in every table that keeps the directories.\<close>

lemma mem_walk_directories:
  assumes "mem_walk w k segs = Inr r"
    and "\<And>key. mem_lookup w key = Some Directory \<Longrightarrow> mem_lookup w' key = Some Directory"
  shows "mem_walk w' k segs = Inr r"
  using assms(1)
proof (induction segs arbitrary: k)
  case Nil
  then show ?case by simp
next
  case (Cons seg segs)
  from Cons.prems have d: "mem_lookup w k = Some Directory"
    by (auto split: option.splits node.splits)
  then have d': "mem_lookup w' k = Some Directory"
    by (rule assms(2))
  from Cons.prems d
  have "(if seg = [] \<or> seg = [DOT] then mem_walk w k segs
         else if seg = [DOT, DOT] then mem_walk w (butlast k) segs
         else mem_walk w (k @ [seg]) segs) = Inr r"
    by simp
  then show ?case
    using d' Cons.IH by (auto split: if_splits)
qed








section \<open>JSON round trip\<close>





section \<open>Changing the extension\<close>

text \<open>
  Claim C7. \<open>changeFileExtension\<close> puts the dot in front of an extension given without
  it before it replaces the old one: an extension without a leading dot gives the same
  result as the extension with the dot, and in every case the result is the join of the
  parsed directory with the parsed name followed by an extension that starts with a dot.
  With POSIX paths, \<open>changeFileExtension("/a/b.txt", "json")\<close> and
  \<open>changeFileExtension("/a/b.txt", ".json")\<close> are both \<open>"/a/b.json"\<close>.
\<close>

theorem changeFileExtension_dot_optional:
  "(\<not> startsWith newExtension [DOT] \<longrightarrow>
      changeFileExtension h filePath newExtension
        = changeFileExtension h filePath (DOT # newExtension))
   \<and> (\<exists>ext. startsWith ext [DOT] \<and> (ext = newExtension \<or> ext = DOT # newExtension)
        \<and> changeFileExtension h filePath newExtension
            = joinPaths h [pp_dir (path_parse h filePath), pp_name (path_parse h filePath) @ ext])
   \<and> changeFileExtension node_posix (js ''/a/b.txt'') (js ''json'') = js ''/a/b.json''
   \<and> changeFileExtension node_posix (js ''/a/b.txt'') (js ''.json'') = js ''/a/b.json''"
proof (intro conjI impI)
  assume "\<not> startsWith newExtension [DOT]"
  then show "changeFileExtension h filePath newExtension
        = changeFileExtension h filePath (DOT # newExtension)"
    by (simp add: changeFileExtension_def startsWith_def)
next
  show "\<exists>ext. startsWith ext [DOT] \<and> (ext = newExtension \<or> ext = DOT # newExtension)
        \<and> changeFileExtension h filePath newExtension
            = joinPaths h [pp_dir (path_parse h filePath), pp_name (path_parse h filePath) @ ext]"
  proof (cases "startsWith newExtension [DOT]")
    case True
    then show ?thesis
      by (intro exI[of _ newExtension]) (simp add: changeFileExtension_def Let_def)
  next
    case False
    then show ?thesis
      by (intro exI[of _ "DOT # newExtension"]) (simp add: changeFileExtension_def startsWith_def Let_def)
  qed
next
  show "changeFileExtension node_posix (js ''/a/b.txt'') (js ''json'') = js ''/a/b.json''"
    by code_simp
next
  show "changeFileExtension node_posix (js ''/a/b.txt'') (js ''.json'') = js ''/a/b.json''"
    by code_simp
qed

theorem changeFileExtension_dot_optional_witness:
  "\<not> startsWith (js ''json'') [DOT]
   \<and> changeFileExtension node_posix (js ''/a/b.txt'') (js ''json'')
        = changeFileExtension node_posix (js ''/a/b.txt'') (DOT # js ''json'')"
proof -
  have n: "\<not> startsWith (js ''json'') [DOT]"
    by code_simp
  from n changeFileExtension_dot_optional
           [where h = node_posix and filePath = "js ''/a/b.txt''" and newExtension = "js ''json''"]
  show ?thesis by simp
qed

section \<open>Creating a directory\<close>

lemma createDirectory_existing:
  assumes "directoryExists h dirPath w"
  shows "createDirectory h dirPath w
           = (Inl (Error (js ''Failed to create directory: ''
                            @ js ''Directory already exists: '' @ dirPath)), w)"
  using assms by (simp add: createDirectory_def rethrow_def error_message_def)

lemma already_exists_included:
  "str_includes (js ''Failed to create directory: '' @ js ''Directory already exists: '' @ dirPath)
     (js ''already exists'')"
proof -
  have "js ''Failed to create directory: '' @ js ''Directory already exists: '' @ dirPath
      = js ''Failed to create directory: Directory '' @ js ''already exists''
          @ (js '': '' @ dirPath)"
    by (simp add: js_def)
  then show ?thesis
    by (simp only: str_includes_middle)
qed

text \<open>The first half of claim C5 holds for every runtime: where a directory exists
  already, \<open>createDirectory\<close> fails with a message containing "already exists" and changes
  nothing.\<close>

lemma createDirectory_already_exists:
  assumes d: "directoryExists h dirPath w"
  shows "\<exists>m. createDirectory h dirPath w = (Inl (Error m), w)
           \<and> str_includes m (js ''already exists'')"
  by (rule exI, rule conjI, rule createDirectory_existing[OF d], rule already_exists_included)

lemma createDirectory_absent:
  assumes "\<not> directoryExists h dirPath w"
  shows "createDirectory h dirPath w
           = (case ensureDirectoryExists h dirPath w of
                (Inl e, w') \<Rightarrow> (Inl (Error (js ''Failed to create directory: '' @ error_message e)), w')
              | (Inr u, w') \<Rightarrow> (Inr (), w'))"
  using assms by (simp add: createDirectory_def rethrow_def split: prod.splits sum.splits)

lemma ensureDirectoryExists_absent:
  assumes "\<not> fs_existsSync h dirPath w"
  shows "ensureDirectoryExists h dirPath w
           = (case fs_mkdirSync h dirPath \<lparr>recursive = True, mode = 493\<rparr> w of
                (Inl e, w') \<Rightarrow> (Inl (Error (js ''Failed to create directory: '' @ error_message e)), w')
              | (Inr u, w') \<Rightarrow> (Inr (), w'))"
  using assms by (simp add: ensureDirectoryExists_def rethrow_def split: prod.splits sum.splits)

text \<open>On the file system in memory, the recursive \<open>mkdir\<close> that succeeds leaves a
  directory at the path it was given, reached through directories, and keeps every
  directory there was.\<close>

lemma mem_lookup_snoc:
  "mem_lookup w k = None \<Longrightarrow>
     mem_lookup (w @ [(k, v)]) key = (if key = k then Some v else mem_lookup w key)"
  by (auto simp: mem_lookup_def map_add_def split: option.splits if_splits)

lemma mem_mkdir_walk_creates:
  assumes "mem_mkdir_walk w k segs = (Inr (), w')"
    and "\<forall>k'. prefix k' k \<longrightarrow> mem_lookup w k' = Some Directory"
  shows "\<exists>r. mem_walk w' k segs = Inr r \<and> mem_lookup w' r = Some Directory
           \<and> (\<forall>key. mem_lookup w key = Some Directory \<longrightarrow> mem_lookup w' key = Some Directory)"
  using assms
proof (induction w k segs rule: mem_mkdir_walk.induct)
  case (1 w k)
  then show ?case by simp
next
  case (2 w k seg segs)
  have here: "mem_lookup w k = Some Directory"
    using "2.prems"(2) by simp
  show ?case
  proof (cases "seg = [] \<or> seg = [DOT]")
    case True
    with "2.prems" have run: "mem_mkdir_walk w k segs = (Inr (), w')"
      by simp
    from "2.IH"(1)[OF True run "2.prems"(2)]
    obtain r where r: "mem_walk w' k segs = Inr r" "mem_lookup w' r = Some Directory"
      and keep: "\<forall>key. mem_lookup w key = Some Directory \<longrightarrow> mem_lookup w' key = Some Directory"
      by auto
    from keep here have "mem_lookup w' k = Some Directory"
      by simp
    with True r keep show ?thesis
      by auto
  next
    case False
    show ?thesis
    proof (cases "seg = [DOT, DOT]")
      case up: True
      with False "2.prems" have run: "mem_mkdir_walk w (butlast k) segs = (Inr (), w')"
        by simp
      have inv: "\<forall>k'. prefix k' (butlast k) \<longrightarrow> mem_lookup w k' = Some Directory"
        using "2.prems"(2) by (meson prefix_order.trans prefixeq_butlast)
      from "2.IH"(2)[OF False up run inv]
      obtain r where r: "mem_walk w' (butlast k) segs = Inr r" "mem_lookup w' r = Some Directory"
        and keep: "\<forall>key. mem_lookup w key = Some Directory \<longrightarrow> mem_lookup w' key = Some Directory"
        by auto
      from keep here have "mem_lookup w' k = Some Directory"
        by simp
      with False up r keep show ?thesis
        by auto
    next
      case name: False
      show ?thesis
      proof (cases "mem_lookup w (k @ [seg])")
        case None
        let ?w1 = "w @ [(k @ [seg], Directory)]"
        from False name None "2.prems" have run: "mem_mkdir_walk ?w1 (k @ [seg]) segs = (Inr (), w')"
          by simp
        have keep1: "\<And>key. mem_lookup w key = Some Directory \<Longrightarrow> mem_lookup ?w1 key = Some Directory"
          using None by (simp add: mem_lookup_snoc)
        have inv: "\<forall>k'. prefix k' (k @ [seg]) \<longrightarrow> mem_lookup ?w1 k' = Some Directory"
          using "2.prems"(2) None by (auto simp: mem_lookup_snoc)
        from "2.IH"(3)[OF False name None run inv]
        obtain r where r: "mem_walk w' (k @ [seg]) segs = Inr r" "mem_lookup w' r = Some Directory"
          and keep: "\<forall>key. mem_lookup ?w1 key = Some Directory \<longrightarrow> mem_lookup w' key = Some Directory"
          by auto
        from keep keep1 have keep': "\<forall>key. mem_lookup w key = Some Directory \<longrightarrow> mem_lookup w' key = Some Directory"
          by blast
        with here have "mem_lookup w' k = Some Directory"
          by simp
        with False name r keep' show ?thesis
          by auto
      next
        case (Some n)
        with False name "2.prems" have n: "n = Directory"
          by (cases n) simp_all
        with False name Some "2.prems" have run: "mem_mkdir_walk w (k @ [seg]) segs = (Inr (), w')"
          by simp
        have inv: "\<forall>k'. prefix k' (k @ [seg]) \<longrightarrow> mem_lookup w k' = Some Directory"
          using "2.prems"(2) Some n by auto
        from "2.IH"(4)[OF False name Some n run inv]
        obtain r where r: "mem_walk w' (k @ [seg]) segs = Inr r" "mem_lookup w' r = Some Directory"
          and keep: "\<forall>key. mem_lookup w key = Some Directory \<longrightarrow> mem_lookup w' key = Some Directory"
          by auto
        from keep here have "mem_lookup w' k = Some Directory"
          by simp
        with False name r keep show ?thesis
          by auto
      qed
    qed
  qed
qed

lemma mem_directoryExists:
  "(mem_existsSync p w \<and> (case mem_statSync p w of Inl e \<Rightarrow> False | Inr st \<Rightarrow> stats_isDirectory st))
     \<longleftrightarrow> (\<exists>k. mem_resolve w p = Inr k \<and> mem_lookup w k = Some Directory)"
  by (auto simp: mem_existsSync_def mem_statSync_def mem_find_def
           split: sum.splits option.splits node.splits)

text \<open>Where nothing exists at the path, the second half of claim C5 holds on the file
  system in memory: a \<open>createDirectory\<close> that succeeds leaves a directory at the path (so
  every name on the way to it is a directory too) and keeps the directories there were.\<close>

lemma createDirectory_creates:
  assumes mem: "in_memory h"
    and absent: "\<not> fs_existsSync h dirPath w"
    and run: "createDirectory h dirPath w = (Inr (), w')"
  shows "directoryExists h dirPath w'
         \<and> (\<forall>p. directoryExists h p w \<longrightarrow> directoryExists h p w')"
proof -
  from absent have "\<not> directoryExists h dirPath w"
    by (simp add: directoryExists_def)
  with run absent have "fs_mkdirSync h dirPath \<lparr>recursive = True, mode = 493\<rparr> w = (Inr (), w')"
    by (auto simp: createDirectory_def ensureDirectoryExists_def split: prod.splits sum.splits)
  with mem have mk: "mem_mkdirSync dirPath \<lparr>recursive = True, mode = 493\<rparr> w = (Inr (), w')"
    by (simp add: in_memory_def)
  then have ne: "dirPath \<noteq> []"
    and wk: "mem_mkdir_walk w [] (split_on SLASH dirPath) = (Inr (), w')"
    by (auto simp: mem_mkdirSync_def split: if_splits)
  have root: "\<forall>k'. prefix k' [] \<longrightarrow> mem_lookup w k' = Some Directory"
    by (simp add: mem_lookup_def)
  from mem_mkdir_walk_creates[OF wk root]
  obtain r where r: "mem_walk w' [] (split_on SLASH dirPath) = Inr r"
      "mem_lookup w' r = Some Directory"
    and keep: "\<And>key. mem_lookup w key = Some Directory \<Longrightarrow> mem_lookup w' key = Some Directory"
    by auto
  have dir: "\<And>p s. directoryExists h p s
               \<longleftrightarrow> (\<exists>k. mem_resolve s p = Inr k \<and> mem_lookup s k = Some Directory)"
    using mem by (simp add: directoryExists_def in_memory_def mem_directoryExists)
  from ne r have "directoryExists h dirPath w'"
    by (simp add: dir mem_resolve_def)
  moreover have "directoryExists h p w'" if "directoryExists h p w" for p
  proof -
    from that obtain k where k: "mem_resolve w p = Inr k" "mem_lookup w k = Some Directory"
      by (auto simp: dir)
    from k(1) have p: "p \<noteq> []" and pw: "mem_walk w [] (split_on SLASH p) = Inr k"
      by (auto simp: mem_resolve_def split: if_splits)
    from pw keep have "mem_walk w' [] (split_on SLASH p) = Inr k"
      by (rule mem_walk_directories)
    with p k(2) keep show ?thesis
      by (auto simp: dir mem_resolve_def)
  qed
  ultimately show ?thesis
    by blast
qed

lemma createDirectory_creates_example:
  "\<not> fs_existsSync node_posix (js ''/new/deep'') example_tree
   \<and> createDirectory node_posix (js ''/new/deep'') example_tree
       = (Inr (), example_tree @ [([js ''new''], Directory), ([js ''new'', js ''deep''], Directory)])
   \<and> directoryExists node_posix (js ''/new'')
         (example_tree @ [([js ''new''], Directory), ([js ''new'', js ''deep''], Directory)])
   \<and> directoryExists node_posix (js ''/new/deep'')
         (example_tree @ [([js ''new''], Directory), ([js ''new'', js ''deep''], Directory)])"
proof (intro conjI)
  show "\<not> fs_existsSync node_posix (js ''/new/deep'') example_tree"
    by code_simp
  show "createDirectory node_posix (js ''/new/deep'') example_tree
       = (Inr (), example_tree @ [([js ''new''], Directory), ([js ''new'', js ''deep''], Directory)])"
    by code_simp
  show "directoryExists node_posix (js ''/new'')
         (example_tree @ [([js ''new''], Directory), ([js ''new'', js ''deep''], Directory)])"
    by code_simp
  show "directoryExists node_posix (js ''/new/deep'')
         (example_tree @ [([js ''new''], Directory), ([js ''new'', js ''deep''], Directory)])"
    by code_simp
qed

text \<open>
  Claim C5. Where a directory exists already, \<open>createDirectory\<close> fails with a message
  containing "already exists" (\<open>createDirectory_already_exists\<close>), and where nothing exists
  at the path it creates the directory (\<open>createDirectory_creates\<close>). But the claim's
  second half is about every path at which no directory exists, and there it fails: where
  something that is no directory exists at the path (a regular file, say),
  \<open>directoryExists\<close> is false, so nothing is thrown, and the guard
  \<open>!fs.existsSync(dirPath)\<close> of \<open>ensureDirectoryExists\<close> skips \<open>mkdir\<close>. For every
  runtime, the call returns normally and leaves the state as it was, with no directory at
  the path.
\<close>

theorem createDirectory_non_directory_unchanged:
  assumes "fs_existsSync h dirPath w"
    and "\<not> directoryExists h dirPath w"
  shows "createDirectory h dirPath w = (Inr (), w)"
  using assms by (simp add: createDirectory_def ensureDirectoryExists_def)

theorem createDirectory_non_directory_unchanged_witness:
  "fs_existsSync node_posix (js ''/dir/a.txt'') example_tree
   \<and> fs_statSync node_posix (js ''/dir/a.txt'') example_tree
       = Inr \<lparr>stats_isFile = True, stats_isDirectory = False\<rparr>
   \<and> \<not> directoryExists node_posix (js ''/dir/a.txt'') example_tree
   \<and> createDirectory node_posix (js ''/dir/a.txt'') example_tree = (Inr (), example_tree)"
proof -
  have a: "fs_existsSync node_posix (js ''/dir/a.txt'') example_tree"
    by code_simp
  have b: "fs_statSync node_posix (js ''/dir/a.txt'') example_tree
       = Inr \<lparr>stats_isFile = True, stats_isDirectory = False\<rparr>"
    by code_simp
  have c: "\<not> directoryExists node_posix (js ''/dir/a.txt'') example_tree"
    by code_simp
  have d: "createDirectory node_posix (js ''/dir/a.txt'') example_tree = (Inr (), example_tree)"
    by (rule createDirectory_non_directory_unchanged[OF a c])
  show ?thesis
    by (intro conjI a b c d)
qed

section \<open>Finding files\<close>

lemma str_includes_empty: "str_includes s []"
  by (cases s) simp_all

lemma pattern_matches_Some: "pattern_matches (Some p) item = str_includes item p"
  by (auto simp: pattern_matches_def str_includes_empty)

lemma findFiles_sound:
  "findFiles n h dirPath pattern w = Some (Inr files) \<Longrightarrow> walk h w pattern dirPath files"
  "findFiles_loop n h dirPath pattern w items acc = Some (Inr files) \<Longrightarrow>
     \<exists>found. visit_all h w pattern dirPath items found \<and> files = acc @ found"
proof (induction n h dirPath pattern w and n h dirPath pattern w items acc
       arbitrary: files and files rule: findFiles_findFiles_loop.induct)
  case (1 h dirPath pattern w)
  then show ?case by simp
next
  case (2 n h dirPath pattern w)
  from "2.prems" obtain contents where rd: "fs_readdirSync h dirPath w = Inr contents"
    and lp: "findFiles_loop n h dirPath pattern w contents [] = Some (Inr files)"
    by (auto split: sum.splits option.splits)
  from "2.IH"[OF rd lp] obtain found
    where "visit_all h w pattern dirPath contents found" and "files = found"
    by auto
  with rd show ?case
    by (auto intro: walk_directory)
next
  case (3 n h dirPath pattern w files')
  then show ?case
    by (auto intro: visit_done)
next
  case (4 n h dirPath pattern w item rest acc)
  let ?p = "joinPaths h [dirPath, item]"
  from "4.prems" obtain st where st: "fs_statSync h ?p w = Inr st"
    by (auto simp: Let_def split: sum.splits)
  show ?case
  proof (cases "stats_isFile st")
    case True
    show ?thesis
    proof (cases "pattern_matches pattern item")
      case m: True
      from "4.prems" st True m
      have "findFiles_loop n h dirPath pattern w rest (acc @ [?p]) = Some (Inr files)"
        by (simp add: Let_def)
      from "4.IH"(1)[OF refl st True m this] obtain found
        where "visit_all h w pattern dirPath rest found" and "files = (acc @ [?p]) @ found"
        by auto
      with st True m show ?thesis
        by (auto intro: visit_file_included)
    next
      case m: False
      from "4.prems" st True m
      have "findFiles_loop n h dirPath pattern w rest acc = Some (Inr files)"
        by (simp add: Let_def)
      from "4.IH"(2)[OF refl st True m this] obtain found
        where "visit_all h w pattern dirPath rest found" and "files = acc @ found"
        by auto
      with st True m show ?thesis
        by (auto intro: visit_file_skipped)
    qed
  next
    case False
    show ?thesis
    proof (cases "stats_isDirectory st")
      case d: True
      from "4.prems" st False d obtain below
        where sub: "findFiles n h ?p pattern w = Some (Inr below)"
          and lp: "findFiles_loop n h dirPath pattern w rest (acc @ below) = Some (Inr files)"
        by (auto simp: Let_def split: option.splits sum.splits)
      from "4.IH"(3)[OF refl st False d sub] have wk: "walk h w pattern ?p below" .
      from "4.IH"(4)[OF refl st False d sub refl lp] obtain found
        where "visit_all h w pattern dirPath rest found" and "files = (acc @ below) @ found"
        by auto
      with st False d wk show ?thesis
        by (auto intro: visit_directory)
    next
      case d: False
      from "4.prems" st False d
      have "findFiles_loop n h dirPath pattern w rest acc = Some (Inr files)"
        by (simp add: Let_def)
      from "4.IH"(5)[OF refl st False d this] obtain found
        where "visit_all h w pattern dirPath rest found" and "files = acc @ found"
        by auto
      with st False d show ?thesis
        by (auto intro: visit_other)
    qed
  qed
qed

lemma findFiles_fuel_Suc:
  "findFiles n h dirPath pattern w = Some r \<Longrightarrow> findFiles (Suc n) h dirPath pattern w = Some r"
  "findFiles_loop n h dirPath pattern w items acc = Some r \<Longrightarrow>
     findFiles_loop (Suc n) h dirPath pattern w items acc = Some r"
proof (induction n h dirPath pattern w and n h dirPath pattern w items acc
       arbitrary: r and r rule: findFiles_findFiles_loop.induct)
  case (1 h dirPath pattern w)
  then show ?case by simp
next
  case (2 n h dirPath pattern w)
  show ?case
  proof (cases "fs_readdirSync h dirPath w")
    case (Inl e)
    with "2.prems" show ?thesis by simp
  next
    case (Inr contents)
    with "2.prems" obtain r' where lp: "findFiles_loop n h dirPath pattern w contents [] = Some r'"
      by (auto split: option.splits)
    from "2.IH"[OF Inr lp]
    have "findFiles_loop (Suc n) h dirPath pattern w contents [] = Some r'" .
    with "2.prems" Inr lp show ?thesis
      by (simp del: findFiles_loop.simps)
  qed
next
  case (3 n h dirPath pattern w files)
  then show ?case by simp
next
  case (4 n h dirPath pattern w item rest acc)
  let ?p = "joinPaths h [dirPath, item]"
  show ?case
  proof (cases "fs_statSync h ?p w")
    case (Inl e)
    with "4.prems" show ?thesis by (simp add: Let_def)
  next
    case (Inr st)
    show ?thesis
    proof (cases "stats_isFile st")
      case True
      show ?thesis
      proof (cases "pattern_matches pattern item")
        case m: True
        from "4.prems" Inr True m
        have "findFiles_loop n h dirPath pattern w rest (acc @ [?p]) = Some r"
          by (simp add: Let_def)
        from "4.IH"(1)[OF refl Inr True m this] Inr True m show ?thesis
          by (simp add: Let_def)
      next
        case m: False
        from "4.prems" Inr True m
        have "findFiles_loop n h dirPath pattern w rest acc = Some r"
          by (simp add: Let_def)
        from "4.IH"(2)[OF refl Inr True m this] Inr True m show ?thesis
          by (simp add: Let_def)
      qed
    next
      case False
      show ?thesis
      proof (cases "stats_isDirectory st")
        case d: True
        from "4.prems" Inr False d obtain x where sub: "findFiles n h ?p pattern w = Some x"
          by (auto simp: Let_def split: option.splits)
        from "4.IH"(3)[OF refl Inr False d sub]
        have sub': "findFiles (Suc n) h ?p pattern w = Some x" .
        show ?thesis
        proof (cases x)
          case (Inl e)
          with "4.prems" Inr False d sub have "r = Inl e"
            by (simp add: Let_def)
          with Inr False d sub' Inl show ?thesis
            by (simp add: Let_def del: findFiles.simps)
        next
          case x: (Inr below)
          from "4.prems" Inr False d sub x
          have lp: "findFiles_loop n h dirPath pattern w rest (acc @ below) = Some r"
            by (simp add: Let_def)
          from "4.IH"(4)[OF refl Inr False d sub x lp] Inr False d sub' x show ?thesis
            by (simp add: Let_def del: findFiles.simps)
        qed
      next
        case d: False
        from "4.prems" Inr False d
        have "findFiles_loop n h dirPath pattern w rest acc = Some r"
          by (simp add: Let_def)
        from "4.IH"(5)[OF refl Inr False d this] Inr False d show ?thesis
          by (simp add: Let_def)
      qed
    qed
  qed
qed

lemma findFiles_fuel_mono:
  assumes "n \<le> m"
  shows "findFiles n h dirPath pattern w = Some r \<Longrightarrow> findFiles m h dirPath pattern w = Some r"
    and "findFiles_loop n h dirPath pattern w items acc = Some r \<Longrightarrow>
           findFiles_loop m h dirPath pattern w items acc = Some r"
  using assms by (induction m) (auto simp: le_Suc_eq dest: findFiles_fuel_Suc simp del: findFiles.simps findFiles_loop.simps)


lemma findFiles_complete:
  "walk h w pattern dirPath files \<Longrightarrow>
     \<exists>n. findFiles n h dirPath pattern w = Some (Inr files)"
  "visit_all h w pattern dirPath items found \<Longrightarrow>
     \<exists>n. \<forall>acc. findFiles_loop n h dirPath pattern w items acc = Some (Inr (acc @ found))"
proof (induction rule: walk_visit_all.inducts)
  case (walk_directory dirPath entries found)
  then obtain n
    where "\<forall>acc. findFiles_loop n h dirPath pattern w entries acc = Some (Inr (acc @ found))"
    by auto
  then have "findFiles_loop n h dirPath pattern w entries [] = Some (Inr found)"
    by simp
  with walk_directory have "findFiles (Suc n) h dirPath pattern w = Some (Inr found)"
    by simp
  then show ?case ..
next
  case (visit_done dirPath)
  then show ?case by simp
next
  case (visit_file_included dirPath entry st rest found)
  then obtain n
    where n: "\<forall>acc. findFiles_loop n h dirPath pattern w rest acc = Some (Inr (acc @ found))"
    by auto
  have "\<forall>acc. findFiles_loop n h dirPath pattern w (entry # rest) acc
          = Some (Inr (acc @ joinPaths h [dirPath, entry] # found))"
    using visit_file_included n by (simp add: Let_def)
  then show ?case ..
next
  case (visit_file_skipped dirPath entry st rest found)
  then obtain n
    where n: "\<forall>acc. findFiles_loop n h dirPath pattern w rest acc = Some (Inr (acc @ found))"
    by auto
  have "\<forall>acc. findFiles_loop n h dirPath pattern w (entry # rest) acc = Some (Inr (acc @ found))"
    using visit_file_skipped n by (simp add: Let_def)
  then show ?case ..
next
  case (visit_directory dirPath entry st below rest found)
  let ?p = "joinPaths h [dirPath, entry]"
  from visit_directory obtain n1 n2
    where n1: "findFiles n1 h ?p pattern w = Some (Inr below)"
      and n2: "\<forall>acc. findFiles_loop n2 h dirPath pattern w rest acc = Some (Inr (acc @ found))"
    by auto
  define n where "n = max n1 n2"
  have m1: "findFiles n h ?p pattern w = Some (Inr below)"
    using findFiles_fuel_mono(1)[OF _ n1, of n] by (simp add: n_def)
  have m2: "\<forall>acc. findFiles_loop n h dirPath pattern w rest acc = Some (Inr (acc @ found))"
  proof
    fix acc
    from n2 have "findFiles_loop n2 h dirPath pattern w rest acc = Some (Inr (acc @ found))" ..
    from findFiles_fuel_mono(2)[OF _ this, of n]
    show "findFiles_loop n h dirPath pattern w rest acc = Some (Inr (acc @ found))"
      by (simp add: n_def)
  qed
  have "\<forall>acc. findFiles_loop n h dirPath pattern w (entry # rest) acc
          = Some (Inr (acc @ below @ found))"
    using visit_directory m1 m2 by (simp add: Let_def)
  then show ?case ..
next
  case (visit_other dirPath entry st rest found)
  then obtain n
    where n: "\<forall>acc. findFiles_loop n h dirPath pattern w rest acc = Some (Inr (acc @ found))"
    by auto
  have "\<forall>acc. findFiles_loop n h dirPath pattern w (entry # rest) acc = Some (Inr (acc @ found))"
    using visit_other n by (simp add: Let_def)
  then show ?case ..
qed

text \<open>
  Claim C4. \<open>findFiles\<close> is the depth-first, pre-order walk of the specification: it
  returns a sequence of paths (with enough fuel for the depth of the tree) exactly when
  the walk relates the directory to that sequence, in which a file is included, by its
  full path, iff the pattern is absent or occurs in its name, and a directory is walked
  whatever its name and never included itself. More fuel never changes a result. Over
  the tree with \<open>a.txt\<close>, \<open>b.js\<close> and a subdirectory holding \<open>c.txt\<close>, the pattern
  \<open>.txt\<close> gives exactly the two \<open>.txt\<close> paths.
\<close>

theorem findFiles_is_the_walk:
  "((\<exists>n. findFiles n h dirPath pattern w = Some (Inr files)) \<longleftrightarrow> walk h w pattern dirPath files)
   \<and> (findFiles n h dirPath pattern w = Some r \<and> n \<le> m \<longrightarrow>
        findFiles m h dirPath pattern w = Some r)
   \<and> findFiles 2 node_posix (js ''/dir'') (Some (js ''.txt'')) example_tree
        = Some (Inr [js ''/dir/a.txt'', js ''/dir/sub/c.txt''])"
proof (intro conjI impI iffI)
  assume "\<exists>n. findFiles n h dirPath pattern w = Some (Inr files)"
  then show "walk h w pattern dirPath files"
    using findFiles_sound(1) by (elim exE)
next
  assume "walk h w pattern dirPath files"
  then show "\<exists>n. findFiles n h dirPath pattern w = Some (Inr files)"
    by (rule findFiles_complete(1))
next
  assume "findFiles n h dirPath pattern w = Some r \<and> n \<le> m"
  then show "findFiles m h dirPath pattern w = Some r"
    using findFiles_fuel_mono(1) by (elim conjE)
next
  show "findFiles 2 node_posix (js ''/dir'') (Some (js ''.txt'')) example_tree
        = Some (Inr [js ''/dir/a.txt'', js ''/dir/sub/c.txt''])"
    by code_simp
qed

theorem findFiles_is_the_walk_witness:
  "findFiles 2 node_posix (js ''/dir'') (Some (js ''.txt'')) example_tree
     = Some (Inr [js ''/dir/a.txt'', js ''/dir/sub/c.txt''])
   \<and> walk node_posix example_tree (Some (js ''.txt'')) (js ''/dir'')
         [js ''/dir/a.txt'', js ''/dir/sub/c.txt'']
   \<and> findFiles 5 node_posix (js ''/dir'') (Some (js ''.txt'')) example_tree
     = Some (Inr [js ''/dir/a.txt'', js ''/dir/sub/c.txt''])"
proof -
  note t = findFiles_is_the_walk
             [where h = node_posix and dirPath = "js ''/dir''" and pattern = "Some (js ''.txt'')"
                and w = example_tree and files = "[js ''/dir/a.txt'', js ''/dir/sub/c.txt'']"
                and n = 2 and m = 5 and r = "Inr [js ''/dir/a.txt'', js ''/dir/sub/c.txt'']"]
  have e: "findFiles 2 node_posix (js ''/dir'') (Some (js ''.txt'')) example_tree
     = Some (Inr [js ''/dir/a.txt'', js ''/dir/sub/c.txt''])"
    by (rule conjunct2[OF conjunct2[OF t]])
  have wk: "walk node_posix example_tree (Some (js ''.txt'')) (js ''/dir'')
         [js ''/dir/a.txt'', js ''/dir/sub/c.txt'']"
    by (rule iffD1[OF conjunct1[OF t]]) (rule exI[of _ 2], rule e)
  have f: "findFiles 5 node_posix (js ''/dir'') (Some (js ''.txt'')) example_tree
     = Some (Inr [js ''/dir/a.txt'', js ''/dir/sub/c.txt''])"
    by (rule mp[OF conjunct1[OF conjunct2[OF t]]]) (simp add: e)
  show ?thesis
    by (intro conjI e wk f)
qed

end
